theory Spec2Isabelle
  imports Complex_Main "HOL-Library.Multiset" "HOL-Library.Log_Nat"
begin

section \<open>Analytics aggregator (backend/apps/equipment/services/analytics.py)\<close>

text \<open>
  The aggregator turns a collection of equipment rows into a snapshot of summary
  statistics. The rows come from the \<open>Equipment\<close> table, whose \<open>type\<close> column is a
  non-null string and whose three measurement columns are non-null floats.

  Numbers: Python floats are read as real numbers, so every arithmetic operation of the
  aggregator below is exact. Statements that only move numbers around or compare counts
  are unaffected by this. Where the rounding of binary64 decides a statement (the order
  of a stored average and a stored maximum), the section on binary64 that follows gives
  the rounded computation of the average.

  Dictionaries: a Python \<open>dict\<close> keeps its keys in insertion order, and the chart view
  reads that order, so a dictionary is an association list.
\<close>

record equipment =
  name :: string
  type :: string
  flowrate :: real
  pressure :: real
  temperature :: real

subsection \<open>The pandas operations the service calls\<close>

text \<open>
  \<open>Series.mean\<close>, \<open>min\<close>, \<open>max\<close> and \<open>std\<close>. On an empty series pandas answers NaN;
  the service never asks (it returns early on an empty frame, and every partition taken
  from \<open>unique()\<close> holds at least one row), and the value written for \<open>[]\<close> below stands
  for that NaN. \<open>Series.std\<close> is called with its default \<open>ddof=1\<close>: the sum of squared
  deviations from the mean is divided by \<open>N - ddof\<close>. For \<open>N \<le> ddof\<close> pandas answers NaN
  again; the service guards every call with \<open>len(...) > 1\<close>.
\<close>

definition s_mean :: "real list \<Rightarrow> real" where
  "s_mean xs = sum_list xs / real (length xs)"

fun s_min :: "real list \<Rightarrow> real" where
  "s_min [] = 0"
| "s_min (x # xs) = fold min xs x"

fun s_max :: "real list \<Rightarrow> real" where
  "s_max [] = 0"
| "s_max (x # xs) = fold max xs x"

definition s_std :: "real list \<Rightarrow> real" where
  "s_std xs =
     (let ddof = 1; n = length xs; m = s_mean xs
      in sqrt (sum_list (map (\<lambda>x. (x - m)\<^sup>2) xs) / real (n - ddof)))"

text \<open>
  \<open>Series.unique()\<close>: the distinct values in order of first appearance.
  \<open>Series.value_counts()\<close>: one entry per distinct value with its number of occurrences,
  most frequent first. pandas documents only the descending order of the counts; here
  equal counts stay in order of first appearance (what a stable sort gives), and no
  theorem below depends on how ties are ordered.
\<close>

definition unique :: "'a list \<Rightarrow> 'a list" where
  "unique xs = rev (remdups (rev xs))"

definition value_counts :: "'a list \<Rightarrow> ('a \<times> nat) list" where
  "value_counts xs =
     sort_key (\<lambda>kc. - int (snd kc)) (map (\<lambda>k. (k, count_list xs k)) (unique xs))"

subsection \<open>Dictionaries\<close>

text \<open>\<open>d[k] = v\<close>: overwrite in place when the key is present, append otherwise.\<close>

fun dict_set :: "('k \<times> 'v) list \<Rightarrow> 'k \<Rightarrow> 'v \<Rightarrow> ('k \<times> 'v) list" where
  "dict_set [] k v = [(k, v)]"
| "dict_set ((k', v') # d) k v =
     (if k' = k then (k, v) # d else (k', v') # dict_set d k v)"

text \<open>
  \<open>[f(d[t]) for t in ts]\<close>: the list comprehension raises \<open>KeyError\<close> at the first key
  that is absent; \<open>None\<close> is that exception.
\<close>

fun lookup_each :: "('k \<times> 'v) list \<Rightarrow> ('v \<Rightarrow> 'b) \<Rightarrow> 'k list \<Rightarrow> 'b list option" where
  "lookup_each d f [] = Some []"
| "lookup_each d f (t # ts) =
     (case map_of d t of
        None \<Rightarrow> None
      | Some s \<Rightarrow> (case lookup_each d f ts of None \<Rightarrow> None | Some vs \<Rightarrow> Some (f s # vs)))"

subsection \<open>The snapshot\<close>

record field_stats =
  avg :: real
  min_f :: real
  max_f :: real
  std :: real

record type_stats =
  count_t :: nat
  flowrate_st :: field_stats
  pressure_st :: field_stats
  temperature_st :: field_stats

record analytics =
  total_count :: nat
  avg_flowrate :: real
  avg_pressure :: real
  avg_temperature :: real
  min_flowrate :: real
  max_flowrate :: real
  min_pressure :: real
  max_pressure :: real
  min_temperature :: real
  max_temperature :: real
  std_flowrate :: real
  std_pressure :: real
  std_temperature :: real
  type_distribution :: "(string \<times> nat) list"
  stats_by_type :: "(string \<times> type_stats) list"

definition compute_type_distribution :: "equipment list \<Rightarrow> (string \<times> nat) list" where
  "compute_type_distribution df = value_counts (map type df)"

text \<open>The body of the loop in \<open>_compute_stats_by_type\<close>, for one \<open>equipment_type\<close>.\<close>

definition stats_for_type :: "equipment list \<Rightarrow> string \<Rightarrow> type_stats" where
  "stats_for_type df equipment_type =
     (let type_df = filter (\<lambda>r. type r = equipment_type) df
      in \<lparr> count_t = length type_df,
           flowrate_st =
             \<lparr> avg = s_mean (map flowrate type_df),
               min_f = s_min (map flowrate type_df),
               max_f = s_max (map flowrate type_df),
               std = (if length type_df > 1 then s_std (map flowrate type_df) else 0) \<rparr>,
           pressure_st =
             \<lparr> avg = s_mean (map pressure type_df),
               min_f = s_min (map pressure type_df),
               max_f = s_max (map pressure type_df),
               std = (if length type_df > 1 then s_std (map pressure type_df) else 0) \<rparr>,
           temperature_st =
             \<lparr> avg = s_mean (map temperature type_df),
               min_f = s_min (map temperature type_df),
               max_f = s_max (map temperature type_df),
               std = (if length type_df > 1 then s_std (map temperature type_df) else 0) \<rparr> \<rparr>)"

definition compute_stats_by_type :: "equipment list \<Rightarrow> (string \<times> type_stats) list" where
  "compute_stats_by_type df =
     fold (\<lambda>equipment_type stats. dict_set stats equipment_type (stats_for_type df equipment_type))
       (unique (map type df)) []"

definition empty_analytics :: analytics where
  "empty_analytics =
     \<lparr> total_count = 0,
       avg_flowrate = 0, avg_pressure = 0, avg_temperature = 0,
       min_flowrate = 0, max_flowrate = 0,
       min_pressure = 0, max_pressure = 0,
       min_temperature = 0, max_temperature = 0,
       std_flowrate = 0, std_pressure = 0, std_temperature = 0,
       type_distribution = [],
       stats_by_type = [] \<rparr>"

definition compute_analytics :: "equipment list \<Rightarrow> analytics" where
  "compute_analytics df =
     (if df = [] then empty_analytics
      else
        \<lparr> total_count = length df,
          avg_flowrate = s_mean (map flowrate df),
          avg_pressure = s_mean (map pressure df),
          avg_temperature = s_mean (map temperature df),
          min_flowrate = s_min (map flowrate df),
          max_flowrate = s_max (map flowrate df),
          min_pressure = s_min (map pressure df),
          max_pressure = s_max (map pressure df),
          min_temperature = s_min (map temperature df),
          max_temperature = s_max (map temperature df),
          std_flowrate = (if length df > 1 then s_std (map flowrate df) else 0),
          std_pressure = (if length df > 1 then s_std (map pressure df) else 0),
          std_temperature = (if length df > 1 then s_std (map temperature df) else 0),
          type_distribution = compute_type_distribution df,
          stats_by_type = compute_stats_by_type df \<rparr>)"

subsection \<open>The chart view\<close>

record bar_dataset =
  label :: string
  data :: "real list"

record bar_chart =
  bar_labels :: "string list"
  bar_datasets :: "bar_dataset list"

record pie_chart =
  pie_labels :: "string list"
  pie_data :: "nat list"

record chart_data =
  bar_chart :: bar_chart
  pie_chart :: pie_chart

text \<open>
  \<open>get_chart_data\<close> reads the bar labels from the keys of \<open>stats_by_type\<close> and the pie
  labels from the keys of \<open>type_distribution\<close>. \<open>None\<close> is a \<open>KeyError\<close> from one of the
  three comprehensions.
\<close>

definition get_chart_data :: "analytics \<Rightarrow> chart_data option" where
  "get_chart_data a =
     (let type_dist = type_distribution a;
          sbt = stats_by_type a;
          types = map fst sbt
      in case lookup_each sbt (\<lambda>s. avg (flowrate_st s)) types of
           None \<Rightarrow> None
         | Some fs \<Rightarrow>
        (case lookup_each sbt (\<lambda>s. avg (pressure_st s)) types of
           None \<Rightarrow> None
         | Some ps \<Rightarrow>
        (case lookup_each sbt (\<lambda>s. avg (temperature_st s)) types of
           None \<Rightarrow> None
         | Some ts \<Rightarrow>
             Some \<lparr> bar_chart =
                      \<lparr> bar_labels = types,
                        bar_datasets =
                          [ \<lparr> label = ''Avg Flowrate'', data = fs \<rparr>,
                            \<lparr> label = ''Avg Pressure'', data = ps \<rparr>,
                            \<lparr> label = ''Avg Temperature'', data = ts \<rparr> ] \<rparr>,
                    pie_chart =
                      \<lparr> pie_labels = map fst type_dist,
                        pie_data = map snd type_dist \<rparr> \<rparr>)))"

section \<open>The averages in binary64\<close>

text \<open>
  The snapshot stores \<open>float(df[c].mean())\<close>. pandas computes it in IEEE 754 binary64:
  it adds the values one after the other, rounding every sum, and divides the total by
  the number of values, rounding once more. (This is the order in which numpy adds
  fewer than eight values and in which bottleneck adds any number of them.) \<open>min\<close> and
  \<open>max\<close> return one of the values and round nothing.

  \<open>round64\<close> rounds a real number to the nearest binary64 number, ties to the even
  significand: 53 significant bits, the fixed spacing \<open>2 powi - 1074\<close> of the subnormal
  numbers below \<open>2 powi - 1022\<close>, and \<open>None\<close> when the rounded value \<open>m * 2 powi e\<close> is
  not below \<open>2 powi 1024\<close>, where the finite numbers end. An infinity or a NaN is not a
  number of this model; \<open>None\<close> stands for both.
\<close>

definition floor_log2 :: "real \<Rightarrow> int" where
  "floor_log2 x = (if 1 \<le> x then bitlen \<lfloor>x\<rfloor> - 1 else - bitlen (\<lceil>1 / x\<rceil> - 1))"

definition round_half_even :: "real \<Rightarrow> int" where
  "round_half_even y =
     (let f = \<lfloor>y\<rfloor>; d = y - of_int f
      in if d < 1 / 2 then f
         else if 1 / 2 < d then f + 1
         else if even f then f else f + 1)"

definition round64 :: "real \<Rightarrow> real option" where
  "round64 x =
     (if x = 0 then Some 0
      else
        let e = max (floor_log2 \<bar>x\<bar>) (- 1022) - 52;
            m = round_half_even (x / 2 powi e)
        in if 971 < e \<or> (e = 971 \<and> 2 ^ 53 \<le> \<bar>m\<bar>) then None
           else Some (of_int m * 2 powi e))"

text \<open>One step of the summation, and the mean of a series.\<close>

definition add64 :: "real option \<Rightarrow> real \<Rightarrow> real option" where
  "add64 acc x = (case acc of None \<Rightarrow> None | Some s \<Rightarrow> round64 (s + x))"

definition mean64 :: "real list \<Rightarrow> real option" where
  "mean64 xs =
     (if xs = [] then None
      else case fold (\<lambda>x acc. add64 acc x) xs (Some 0) of
             None \<Rightarrow> None
           | Some s \<Rightarrow> round64 (s / real (length xs)))"

text \<open>
  \<open>avg64 field df\<close> is the value of \<open>float(df[field].mean())\<close> in binary64: what the code
  stores as \<open>avg_flowrate\<close>, \<open>avg_pressure\<close> and \<open>avg_temperature\<close> for the whole frame,
  and as the \<open>avg\<close> of each field in \<open>stats_by_type\<close> for the rows of one type.
\<close>

definition avg64 :: "(equipment \<Rightarrow> real) \<Rightarrow> equipment list \<Rightarrow> real option" where
  "avg64 field df = mean64 (map field df)"

section \<open>CSV ingestor (backend/apps/equipment/services/csv_parser.py)\<close>

text \<open>
  \<open>CSVParserService.parse_file\<close> reads the uploaded bytes, decodes them, hands the text to
  \<open>pandas.read_csv\<close> and then validates and cleans the resulting frame.

  A frame is its list of column labels and its rows, each row holding one cell per
  column. A cell is missing (\<open>NaN\<close>), a number or a string. Characters are code points
  below 256.
\<close>

datatype cell = NaN | Num real | Str string

record dataframe =
  columns :: "string list"
  rows :: "cell list list"

text \<open>\<open>pd.DataFrame()\<close>\<close>

definition empty_frame :: dataframe where
  "empty_frame = \<lparr> columns = [], rows = [] \<rparr>"

subsection \<open>What the service takes from Python and pandas\<close>

text \<open>
  The decoders, \<open>pandas.read_csv\<close> and the conversions between numbers and strings are
  not code of the service; \<open>parse_file\<close> takes them as a parameter. \<open>decode_utf8\<close> answers
  \<open>None\<close> for \<open>UnicodeDecodeError\<close>; decoding Latin-1 cannot fail. \<open>read_csv\<close> returns a
  frame or raises: \<open>EmptyDataError\<close>, \<open>ParserError\<close> with its message, or any other
  exception with its message. \<open>to_number\<close> is what \<open>pd.to_numeric\<close> makes of one string
  (\<open>None\<close> when it cannot be read as a number), \<open>number_str\<close> what \<open>astype(str)\<close> makes of
  one number.
\<close>

datatype read_result =
    Frame dataframe
  | EmptyDataError
  | ParserError string
  | OtherException string

record 'txt library =
  decode_utf8 :: "string \<Rightarrow> 'txt option"
  decode_latin1 :: "string \<Rightarrow> 'txt"
  read_csv :: "'txt \<Rightarrow> read_result"
  to_number :: "string \<Rightarrow> real option"
  number_str :: "real \<Rightarrow> string"

subsection \<open>Python string operations\<close>

text \<open>
  \<open>str.lower\<close>, \<open>str.strip\<close>, \<open>sep.join\<close> and \<open>str\<close> of a non-negative integer. Below
  code point 256, \<open>lower\<close> moves A to Z and the accented capitals of Latin-1 (except the
  multiplication sign) up by 32, and \<open>strip\<close> removes the characters for which
  \<open>str.isspace\<close> holds.
\<close>

definition is_space :: "char \<Rightarrow> bool" where
  "is_space c = ((of_char c :: nat) \<in> {9, 10, 11, 12, 13, 28, 29, 30, 31, 32, 133, 160})"

definition lower_char :: "char \<Rightarrow> char" where
  "lower_char c =
     (let n = (of_char c :: nat)
      in if (65 \<le> n \<and> n \<le> 90) \<or> (192 \<le> n \<and> n \<le> 222 \<and> n \<noteq> 215)
         then char_of (n + 32) else c)"

definition lower :: "string \<Rightarrow> string" where
  "lower s = map lower_char s"

definition strip :: "string \<Rightarrow> string" where
  "strip s = rev (dropWhile is_space (rev (dropWhile is_space s)))"

fun join :: "string \<Rightarrow> string list \<Rightarrow> string" where
  "join sep [] = []"
| "join sep [x] = x"
| "join sep (x # y # ys) = x @ sep @ join sep (y # ys)"

fun str_nat :: "nat \<Rightarrow> string" where
  "str_nat n =
     (if n < 10 then [char_of (48 + n)]
      else str_nat (n div 10) @ [char_of (48 + n mod 10)])"

declare str_nat.simps [simp del]

subsection \<open>The parser\<close>

definition REQUIRED_COLUMNS :: "string list" where
  "REQUIRED_COLUMNS = [''Equipment Name'', ''Type'', ''Flowrate'', ''Pressure'', ''Temperature'']"

definition COLUMN_MAPPING :: "(string \<times> string) list" where
  "COLUMN_MAPPING =
     [ (''Equipment Name'', ''name''),
       (''Type'', ''type''),
       (''Flowrate'', ''flowrate''),
       (''Pressure'', ''pressure''),
       (''Temperature'', ''temperature'') ]"

text \<open>The two lists \<open>self.errors\<close> and \<open>self.warnings\<close> of the service object.\<close>

record parser =
  errors :: "string list"
  warnings :: "string list"

text \<open>\<open>df.rename(columns={old: new})\<close> and \<open>df.rename(columns=mapping)\<close>\<close>

definition rename_column :: "string \<Rightarrow> string \<Rightarrow> dataframe \<Rightarrow> dataframe" where
  "rename_column old new df =
     df\<lparr> columns := map (\<lambda>h. if h = old then new else h) (columns df) \<rparr>"

definition rename_columns :: "(string \<times> string) list \<Rightarrow> dataframe \<Rightarrow> dataframe" where
  "rename_columns mapping df =
     df\<lparr> columns := map (\<lambda>h. case map_of mapping h of Some new \<Rightarrow> new | None \<Rightarrow> h) (columns df) \<rparr>"

text \<open>
  The inner loop of \<open>_validate_columns\<close>: the first actual column whose lower-cased,
  stripped label is the lower-cased required name.
\<close>

fun find_actual :: "string list \<Rightarrow> string \<Rightarrow> string option" where
  "find_actual [] col = None"
| "find_actual (actual_col # rest) col =
     (if strip (lower actual_col) = lower col then Some actual_col
      else find_actual rest col)"

text \<open>
  The outer loop over the required columns, carrying the frame (renamed in place) and
  \<open>missing_columns\<close>.
\<close>

fun validate_columns_loop ::
  "string list \<Rightarrow> dataframe \<Rightarrow> string list \<Rightarrow> dataframe \<times> string list" where
  "validate_columns_loop [] df missing_columns = (df, missing_columns)"
| "validate_columns_loop (col # cols) df missing_columns =
     (if col \<notin> set (columns df) then
        (case find_actual (columns df) col of
           Some actual_col \<Rightarrow>
             validate_columns_loop cols (rename_column actual_col col df) missing_columns
         | None \<Rightarrow> validate_columns_loop cols df (missing_columns @ [col]))
      else validate_columns_loop cols df missing_columns)"

definition validate_columns :: "dataframe \<Rightarrow> parser \<Rightarrow> bool \<times> dataframe \<times> parser" where
  "validate_columns df p =
     (case validate_columns_loop REQUIRED_COLUMNS df [] of
        (df', missing_columns) \<Rightarrow>
          if missing_columns \<noteq> [] then
            (False, df',
             p\<lparr> errors := errors p @
                  [''Missing required columns: '' @ join '', '' missing_columns] \<rparr>)
          else (True, df', p))"

text \<open>
  Column access. \<open>cell_of df r col\<close> is the cell of row \<open>r\<close> under the label \<open>col\<close>; the
  label is present wherever the service reads it (the columns were validated before),
  and the \<open>NaN\<close> written for an absent label is never used. \<open>apply_column\<close> is the
  assignment \<open>df[col] = f(df[col])\<close> for an elementwise \<open>f\<close>.
\<close>

definition cell_of :: "dataframe \<Rightarrow> cell list \<Rightarrow> string \<Rightarrow> cell" where
  "cell_of df r col = (case map_of (zip (columns df) r) col of Some v \<Rightarrow> v | None \<Rightarrow> NaN)"

definition apply_column :: "string \<Rightarrow> (cell \<Rightarrow> cell) \<Rightarrow> dataframe \<Rightarrow> dataframe" where
  "apply_column col f df =
     df\<lparr> rows := map (\<lambda>r. map (\<lambda>(h, v). if h = col then f v else v) (zip (columns df) r)) (rows df) \<rparr>"

text \<open>\<open>DataFrame.empty\<close>: true when either axis has length 0.\<close>

definition is_empty :: "dataframe \<Rightarrow> bool" where
  "is_empty df = (rows df = [] \<or> columns df = [])"

definition isnull :: "cell \<Rightarrow> bool" where
  "isnull v = (case v of NaN \<Rightarrow> True | _ \<Rightarrow> False)"

text \<open>\<open>.astype(str).str.strip()\<close> and \<open>pd.to_numeric(..., errors='coerce')\<close> on one cell.\<close>

definition astype_str_strip :: "'txt library \<Rightarrow> cell \<Rightarrow> cell" where
  "astype_str_strip lib v =
     Str (strip (case v of NaN \<Rightarrow> ''nan'' | Num x \<Rightarrow> number_str lib x | Str s \<Rightarrow> s))"

definition to_numeric :: "'txt library \<Rightarrow> cell \<Rightarrow> cell" where
  "to_numeric lib v =
     (case v of
        NaN \<Rightarrow> NaN
      | Num x \<Rightarrow> Num x
      | Str s \<Rightarrow> (case to_number lib s of Some x \<Rightarrow> Num x | None \<Rightarrow> NaN))"

definition clean_data :: "'txt library \<Rightarrow> dataframe \<Rightarrow> dataframe" where
  "clean_data lib df =
     (let df1 = df\<lparr> rows := filter (\<lambda>r. \<not> list_all isnull r) (rows df) \<rparr>;
          df2 = fold (\<lambda>col d. if col \<in> set (columns d) then apply_column col (astype_str_strip lib) d else d)
                  [''Equipment Name'', ''Type''] df1;
          df3 = fold (\<lambda>col d. if col \<in> set (columns d) then apply_column col (to_numeric lib) d else d)
                  [''Flowrate'', ''Pressure'', ''Temperature''] df2
      in df3)"

text \<open>
  \<open>_validate_data\<close>. It builds \<open>df_clean\<close>, counts what was dropped and warns, and returns
  only the flag: \<open>df_clean\<close> is local and the caller's frame is left as it was.
\<close>

definition null_count :: "dataframe \<Rightarrow> string \<Rightarrow> nat" where
  "null_count df col = length (filter (\<lambda>r. isnull (cell_of df r col)) (rows df))"

definition dropna_subset :: "string list \<Rightarrow> dataframe \<Rightarrow> dataframe" where
  "dropna_subset cols df =
     df\<lparr> rows := filter (\<lambda>r. \<not> list_ex (\<lambda>col. isnull (cell_of df r col)) cols) (rows df) \<rparr>"

definition any_negative :: "dataframe \<Rightarrow> string \<Rightarrow> bool" where
  "any_negative df col =
     list_ex (\<lambda>r. case cell_of df r col of Num x \<Rightarrow> x < 0 | _ \<Rightarrow> False) (rows df)"

definition validate_data :: "dataframe \<Rightarrow> parser \<Rightarrow> bool \<times> parser" where
  "validate_data df p =
     (if is_empty df then
        (False, p\<lparr> errors := errors p @ [''No valid data rows found in the file.''] \<rparr>)
      else
        let null_columns = filter (\<lambda>col. null_count df col > 0) REQUIRED_COLUMNS;
            p1 = p\<lparr> warnings := warnings p @
                   map (\<lambda>col. ''Column '' @ [CHR 0x27] @ col @ [CHR 0x27] @ '' has '' @
                               str_nat (null_count df col) @ '' missing values.'')
                       null_columns \<rparr>;
            original_count = length (rows df);
            df_clean = dropna_subset [''Flowrate'', ''Pressure'', ''Temperature''] df;
            dropped = original_count - length (rows df_clean);
            p2 = (if dropped > 0 then
                    p1\<lparr> warnings := warnings p1 @
                         [''Dropped '' @ str_nat dropped @ '' rows with missing numeric values.''] \<rparr>
                  else p1)
        in if is_empty df_clean then
             (False, p2\<lparr> errors := errors p2 @ [''No valid data rows after cleaning.''] \<rparr>)
           else
             (True,
              p2\<lparr> warnings := warnings p2 @
                   map (\<lambda>col. ''Column '' @ [CHR 0x27] @ col @ [CHR 0x27] @ '' contains negative values.'')
                       (filter (any_negative df) [''Flowrate'', ''Pressure'', ''Temperature'']) \<rparr>))"

text \<open>
  \<open>parse_file\<close> starts by emptying both lists (\<open>fresh\<close>) and returns the pair (frame,
  success flag); \<open>state\<close> is the service object after the call. Every \<open>except\<close> clause
  of the source is a branch here.
\<close>

definition fresh :: parser where
  "fresh = \<lparr> errors = [], warnings = [] \<rparr>"

record parsed =
  frame :: dataframe
  success :: bool
  state :: parser

definition failed :: "parser \<Rightarrow> string \<Rightarrow> parsed" where
  "failed p msg = \<lparr> frame = empty_frame, success = False, state = p\<lparr> errors := errors p @ [msg] \<rparr> \<rparr>"

definition decode :: "'txt library \<Rightarrow> string \<Rightarrow> parser \<Rightarrow> 'txt \<times> parser" where
  "decode lib content p =
     (case decode_utf8 lib content of
        Some content_str \<Rightarrow> (content_str, p)
      | None \<Rightarrow>
          (decode_latin1 lib content,
           p\<lparr> warnings := warnings p @ [''File was not UTF-8 encoded, used latin-1 encoding.''] \<rparr>))"

definition parse_file :: "'txt library \<Rightarrow> string \<Rightarrow> parsed" where
  "parse_file lib content =
     (case decode lib content fresh of
        (content_str, p) \<Rightarrow>
          (case read_csv lib content_str of
             EmptyDataError \<Rightarrow> failed p ''The uploaded file is empty.''
           | ParserError e \<Rightarrow> failed p (''Failed to parse CSV: '' @ e)
           | OtherException e \<Rightarrow> failed p (''Unexpected error: '' @ e)
           | Frame df \<Rightarrow>
               (case validate_columns df p of
                  (ok, df1, p1) \<Rightarrow>
                    if \<not> ok then \<lparr> frame = empty_frame, success = False, state = p1 \<rparr>
                    else
                      let df2 = clean_data lib df1
                      in (case validate_data df2 p1 of
                            (ok2, p2) \<Rightarrow>
                              if \<not> ok2 then \<lparr> frame = empty_frame, success = False, state = p2 \<rparr>
                              else \<lparr> frame = rename_columns COLUMN_MAPPING df2,
                                     success = True, state = p2 \<rparr>))))"

subsection \<open>A reader for plain files\<close>

text \<open>
  To run the parser on concrete bytes, the library is instantiated for plain files:
  ASCII text, lines ended by a line feed or a carriage return, fields separated by
  commas, no quoting, header names distinct and not empty, and names and types that
  pandas does not read as numbers. On such files the reader follows \<open>pandas.read_csv\<close>:
  \<^item> blank lines are skipped, and a file without any other line is an \<open>EmptyDataError\<close>;
  \<^item> the first line is the header; the table is as wide as the longer of the header and
    the first data row, shorter rows are padded with missing cells, and a later row
    with more fields is a \<open>ParserError\<close>;
  \<^item> when the first data row is longer than the header, the leading extra fields of
    every row are the index and belong to no column;
  \<^item> an empty field, or one of the words pandas reads as missing, is a missing cell; any
    other field is kept as a string.
  A number is an optional sign, digits, and optionally a point and more digits. The
  reader returns no number cells, so \<open>number_str\<close> is never called.
\<close>

fun split_where :: "(char \<Rightarrow> bool) \<Rightarrow> string \<Rightarrow> string list" where
  "split_where is_sep [] = [ [] ]"
| "split_where is_sep (c # cs) =
     (if is_sep c then [] # split_where is_sep cs
      else (case split_where is_sep cs of [] \<Rightarrow> [ [c] ] | w # ws \<Rightarrow> (c # w) # ws))"

definition na_words :: "string list" where
  "na_words =
     [ [], ''#N/A'', ''#N/A N/A'', ''#NA'', ''-1.#IND'', ''-1.#QNAN'', ''-NaN'', ''-nan'',
       ''1.#IND'', ''1.#QNAN'', ''<NA>'', ''N/A'', ''NA'', ''NULL'', ''NaN'', ''n/a'', ''nan'',
       ''null'' ]"

definition plain_cell :: "string \<Rightarrow> cell" where
  "plain_cell s = (if s \<in> set na_words then NaN else Str s)"

definition plain_read_csv :: "string \<Rightarrow> read_result" where
  "plain_read_csv txt =
     (case filter (\<lambda>l. l \<noteq> []) (split_where (\<lambda>c. c = CHR 0x0A \<or> c = CHR 0x0D) txt) of
        [] \<Rightarrow> EmptyDataError
      | header # body \<Rightarrow>
          let cols = split_where (\<lambda>c. c = CHR '','') header;
              recs = map (\<lambda>l. map plain_cell (split_where (\<lambda>c. c = CHR '','') l)) body;
              width = (case recs of [] \<Rightarrow> length cols
                       | first_row # _ \<Rightarrow> max (length cols) (length first_row))
          in if list_ex (\<lambda>r. length r > width) recs
             then ParserError ''Error tokenizing data''
             else Frame \<lparr> columns = cols,
                          rows = map (\<lambda>r. drop (width - length cols)
                                             (r @ replicate (width - length r) NaN)) recs \<rparr>)"

fun digits_value :: "string \<Rightarrow> nat \<Rightarrow> nat option" where
  "digits_value [] acc = Some acc"
| "digits_value (c # cs) acc =
     (let n = (of_char c :: nat)
      in if 48 \<le> n \<and> n \<le> 57 then digits_value cs (10 * acc + (n - 48)) else None)"

definition unsigned_number :: "string \<Rightarrow> real option" where
  "unsigned_number s =
     (let whole = takeWhile (\<lambda>c. c \<noteq> CHR ''.'') s;
          fraction = drop (length whole + 1) s
      in if whole = [] \<and> fraction = [] then None
         else case (digits_value whole 0, digits_value fraction 0) of
                (Some i, Some f) \<Rightarrow> Some (real i + real f / 10 ^ length fraction)
              | _ \<Rightarrow> None)"

definition plain_number :: "string \<Rightarrow> real option" where
  "plain_number s =
     (case s of
        [] \<Rightarrow> None
      | c # cs \<Rightarrow>
          if c = CHR ''-'' then map_option uminus (unsigned_number cs)
          else if c = CHR ''+'' then unsigned_number cs
          else unsigned_number s)"

definition plain_library :: "string library" where
  "plain_library =
     \<lparr> decode_utf8 = (\<lambda>bs. if list_all (\<lambda>c. (of_char c :: nat) < 128) bs then Some bs else None),
       decode_latin1 = (\<lambda>bs. bs),
       read_csv = plain_read_csv,
       to_number = plain_number,
       number_str = (\<lambda>x. str_nat (nat \<lfloor>x\<rfloor>)) \<rparr>"

section \<open>Dataset retention (backend/apps/equipment/views.py)\<close>

text \<open>
  \<open>DatasetViewSet._enforce_dataset_limit\<close> runs at the end of every upload, inside the
  upload's transaction. The database is the \<open>Dataset\<close> table (a list of rows with distinct
  primary keys) and the stored files. \<open>max_datasets\<close> is the setting
  \<open>MAX_DATASETS_PER_USER\<close> (5 when unset), an integer.

  \<open>order_by('-uploaded_at')\<close> sorts by descending timestamp; rows with equal timestamps
  come in an order the database chooses, here the order of the table.
  Slicing a queryset from a negative index raises.
\<close>

record dataset =
  pk :: nat
  dataset_name :: string
  file_field :: string
  uploaded_by :: nat
  uploaded_at :: nat

record database =
  datasets :: "dataset list"
  files :: "string list"

datatype django_error = NegativeIndexing

definition order_by_uploaded_at_desc :: "dataset list \<Rightarrow> dataset list" where
  "order_by_uploaded_at_desc ds = sort_key (\<lambda>d. - int (uploaded_at d)) ds"

text \<open>
  One turn of the loop: \<open>old_dataset.file.delete(save=False)\<close> when the file field is
  set, then \<open>old_dataset.delete()\<close>, which removes the row with that primary key.
\<close>

definition delete_dataset :: "dataset \<Rightarrow> database \<Rightarrow> database" where
  "delete_dataset old_dataset db =
     \<lparr> datasets = filter (\<lambda>d. pk d \<noteq> pk old_dataset) (datasets db),
       files = (if file_field old_dataset \<noteq> [] then removeAll (file_field old_dataset) (files db)
                else files db) \<rparr>"

definition enforce_dataset_limit :: "int \<Rightarrow> nat \<Rightarrow> database \<Rightarrow> django_error + database" where
  "enforce_dataset_limit max_datasets user db =
     (let user_datasets =
            order_by_uploaded_at_desc (filter (\<lambda>d. uploaded_by d = user) (datasets db))
      in if int (length user_datasets) > max_datasets then
           (if max_datasets < 0 then Inl NegativeIndexing
            else Inr (fold delete_dataset (drop (nat max_datasets) user_datasets) db))
         else Inr db)"

section \<open>Notions of the specification\<close>

text \<open>
  The sample standard deviation as the specification words it: the square root of the
  sum of squared deviations from the arithmetic mean, divided by \<open>N - 1\<close>; and the
  convention that it is \<open>0.0\<close> when there are fewer than two values.
\<close>

definition sample_std :: "real list \<Rightarrow> real" where
  "sample_std vs =
     sqrt ((\<Sum>x\<leftarrow>vs. (x - sum_list vs / real (length vs))\<^sup>2) / (real (length vs) - 1))"

definition spec_std :: "real list \<Rightarrow> real" where
  "spec_std vs = (if length vs > 1 then sample_std vs else 0)"

text \<open>
  A header matches a required column when, with surrounding whitespace trimmed, it equals
  the canonical name up to letter case. The absent columns are the required ones that no
  header matches, in the order of \<open>REQUIRED_COLUMNS\<close>.
\<close>

definition header_matches :: "string \<Rightarrow> string \<Rightarrow> bool" where
  "header_matches h col = (lower (strip h) = lower col)"

definition absent_columns :: "string list \<Rightarrow> string list" where
  "absent_columns hs = filter (\<lambda>col. \<not> list_ex (\<lambda>h. header_matches h col) hs) REQUIRED_COLUMNS"

section \<open>Example inputs\<close>

text \<open>Uploads, as bytes, and the frames the plain reader makes of them.\<close>

definition nl :: string where
  "nl = [CHR 0x0A]"

definition csv_bad_flowrate :: string where
  "csv_bad_flowrate =
     ''Equipment Name,Type,Flowrate,Pressure,Temperature'' @ nl @
     ''P1,Pump,abc,1,2'' @ nl @
     ''P2,Pump,3,4,5'' @ nl"

definition frame_bad_flowrate :: dataframe where
  "frame_bad_flowrate =
     \<lparr> columns = [''Equipment Name'', ''Type'', ''Flowrate'', ''Pressure'', ''Temperature''],
       rows = [ [Str ''P1'', Str ''Pump'', Str ''abc'', Str ''1'', Str ''2''],
                [Str ''P2'', Str ''Pump'', Str ''3'', Str ''4'', Str ''5''] ] \<rparr>"

definition cleaned_bad_flowrate :: dataframe where
  "cleaned_bad_flowrate =
     \<lparr> columns = [''Equipment Name'', ''Type'', ''Flowrate'', ''Pressure'', ''Temperature''],
       rows = [ [Str ''P1'', Str ''Pump'', NaN, Num 1, Num 2],
                [Str ''P2'', Str ''Pump'', Num 3, Num 4, Num 5] ] \<rparr>"

definition csv_no_numbers :: string where
  "csv_no_numbers =
     ''Equipment Name,Type,Flowrate,Pressure,Temperature'' @ nl @
     ''P1,Pump,abc,1,2'' @ nl @
     ''P2,Valve,n/a,4,5'' @ nl"

definition frame_no_numbers :: dataframe where
  "frame_no_numbers =
     \<lparr> columns = [''Equipment Name'', ''Type'', ''Flowrate'', ''Pressure'', ''Temperature''],
       rows = [ [Str ''P1'', Str ''Pump'', Str ''abc'', Str ''1'', Str ''2''],
                [Str ''P2'', Str ''Valve'', NaN, Str ''4'', Str ''5''] ] \<rparr>"

definition csv_no_pressure :: string where
  "csv_no_pressure =
     ''Equipment Name,Type,Flowrate,Temperature'' @ nl @
     ''P1,Pump,3,5'' @ nl"

definition frame_no_pressure :: dataframe where
  "frame_no_pressure =
     \<lparr> columns = [''Equipment Name'', ''Type'', ''Flowrate'', ''Temperature''],
       rows = [ [Str ''P1'', Str ''Pump'', Str ''3'', Str ''5''] ] \<rparr>"

definition csv_pressure_variant :: string where
  "csv_pressure_variant =
     ''Equipment Name,Type,Flowrate,pressure ,Temperature'' @ nl @
     ''P1,Pump,3,4,5'' @ nl"

definition frame_pressure_variant :: dataframe where
  "frame_pressure_variant =
     \<lparr> columns = [''Equipment Name'', ''Type'', ''Flowrate'', ''pressure '', ''Temperature''],
       rows = [ [Str ''P1'', Str ''Pump'', Str ''3'', Str ''4'', Str ''5''] ] \<rparr>"

definition csv_long_row :: string where
  "csv_long_row = ''a,b'' @ nl @ ''1,2'' @ nl @ ''1,2,3'' @ nl"

definition csv_short_header :: string where
  "csv_short_header = ''a,b'' @ nl @ ''1,2'' @ nl"

text \<open>Three equipment rows, a valve first and then two pumps, and their chart view.\<close>

definition rows_vpp :: "equipment list" where
  "rows_vpp =
     [ \<lparr> name = ''V1'', type = ''Valve'', flowrate = 5, pressure = 1, temperature = 20 \<rparr>,
       \<lparr> name = ''P1'', type = ''Pump'', flowrate = 10, pressure = 2, temperature = 30 \<rparr>,
       \<lparr> name = ''P2'', type = ''Pump'', flowrate = 20, pressure = 4, temperature = 40 \<rparr> ]"

definition chart_vpp :: chart_data where
  "chart_vpp =
     \<lparr> bar_chart =
         \<lparr> bar_labels = [''Valve'', ''Pump''],
           bar_datasets =
             [ \<lparr> label = ''Avg Flowrate'', data = [5, 15] \<rparr>,
               \<lparr> label = ''Avg Pressure'', data = [1, 3] \<rparr>,
               \<lparr> label = ''Avg Temperature'', data = [20, 35] \<rparr> ] \<rparr>,
       pie_chart =
         \<lparr> pie_labels = [''Pump'', ''Valve''],
           pie_data = [2, 1] \<rparr> \<rparr>"

text \<open>
  The binary64 number written \<open>0.1\<close>, and three pumps with that flowrate.
\<close>

definition tenth :: real where
  "tenth = 3602879701896397 / 2 ^ 55"

definition rows_tenths :: "equipment list" where
  "rows_tenths =
     [ \<lparr> name = ''P1'', type = ''Pump'', flowrate = tenth, pressure = 1, temperature = 20 \<rparr>,
       \<lparr> name = ''P2'', type = ''Pump'', flowrate = tenth, pressure = 1, temperature = 20 \<rparr>,
       \<lparr> name = ''P3'', type = ''Pump'', flowrate = tenth, pressure = 1, temperature = 20 \<rparr> ]"

text \<open>A table of four datasets, three of user 1 and one of user 2.\<close>

definition db_four :: database where
  "db_four =
     \<lparr> datasets =
         [ \<lparr> pk = 1, dataset_name = ''a.csv'', file_field = ''uploads/a.csv'', uploaded_by = 1, uploaded_at = 10 \<rparr>,
           \<lparr> pk = 2, dataset_name = ''b.csv'', file_field = ''uploads/b.csv'', uploaded_by = 2, uploaded_at = 20 \<rparr>,
           \<lparr> pk = 3, dataset_name = ''c.csv'', file_field = ''uploads/c.csv'', uploaded_by = 1, uploaded_at = 30 \<rparr>,
           \<lparr> pk = 4, dataset_name = ''d.csv'', file_field = ''uploads/d.csv'', uploaded_by = 1, uploaded_at = 40 \<rparr> ],
       files = [''uploads/a.csv'', ''uploads/b.csv'', ''uploads/c.csv'', ''uploads/d.csv''] \<rparr>"

section \<open>Properties of the aggregator\<close>

subsection \<open>Helper facts\<close>

lemma set_unique [simp]: "set (unique xs) = set xs"
  by (simp add: unique_def)

lemma distinct_unique [simp]: "distinct (unique xs)"
  by (simp add: unique_def)

lemma unique_Nil [simp]: "unique [] = []"
  by (simp add: unique_def)

lemma dict_set_fresh:
  "k \<notin> fst ` set d \<Longrightarrow> dict_set d k v = d @ [(k, v)]"
  by (induction d) auto

lemma fold_dict_set_distinct:
  "distinct ks \<Longrightarrow> set ks \<inter> fst ` set acc = {} \<Longrightarrow>
   fold (\<lambda>t stats. dict_set stats t (f t)) ks acc = acc @ map (\<lambda>t. (t, f t)) ks"
proof (induction ks arbitrary: acc)
  case Nil
  then show ?case by simp
next
  case (Cons k ks)
  from Cons.prems have fresh: "k \<notin> fst ` set acc" by auto
  have step: "dict_set acc k (f k) = acc @ [(k, f k)]"
    using fresh by (rule dict_set_fresh)
  have disj: "set ks \<inter> fst ` set (acc @ [(k, f k)]) = {}"
    using Cons.prems by auto
  have "distinct ks" using Cons.prems by simp
  from Cons.IH [OF this disj] show ?case
    by (simp add: step)
qed

lemma compute_stats_by_type_eq:
  "compute_stats_by_type df = map (\<lambda>t. (t, stats_for_type df t)) (unique (map type df))"
  unfolding compute_stats_by_type_def
  using fold_dict_set_distinct [of "unique (map type df)" "[]" "stats_for_type df"]
  by simp

lemma keys_stats_by_type:
  "map fst (compute_stats_by_type df) = unique (map type df)"
  by (simp add: compute_stats_by_type_eq comp_def)

lemma keys_value_counts_set: "set (map fst (value_counts xs)) = set xs"
  by (auto simp: value_counts_def image_iff)

lemma distinct_keys_value_counts: "distinct (map fst (value_counts xs))"
proof -
  have "mset (map fst (value_counts xs)) = mset (unique xs)"
    by (simp add: value_counts_def multiset.map_comp comp_def)
  moreover have "distinct (unique xs)" by simp
  ultimately show ?thesis
    by (metis distinct_count_atmost_1 mset_eq_setD set_mset_mset)
qed

lemma sum_counts_unique:
  "sum_list (map (count_list xs) (unique xs)) = length xs"
proof -
  have "sum_list (map (count_list xs) (unique xs)) = sum (count_list xs) (set (unique xs))"
    by (rule sum_list_distinct_conv_sum_set) simp
  also have "\<dots> = length xs"
    by (simp add: sum_count_set)
  finally show ?thesis .
qed

lemma sum_value_counts: "sum_list (map snd (value_counts xs)) = length xs"
proof -
  have "mset (map snd (value_counts xs)) = mset (map (count_list xs) (unique xs))"
    by (simp add: value_counts_def multiset.map_comp comp_def)
  then have "sum_list (map snd (value_counts xs)) = sum_list (map (count_list xs) (unique xs))"
    by (metis sum_mset_sum_list)
  then show ?thesis by (simp add: sum_counts_unique)
qed

lemma count_list_filter_length:
  "count_list (map f xs) t = length (filter (\<lambda>r. f r = t) xs)"
  by (induction xs) auto

lemma value_counts_entry:
  "p \<in> set (value_counts xs) \<Longrightarrow> snd p = count_list xs (fst p)"
  by (auto simp: value_counts_def)

lemma value_counts_snd:
  "map snd (value_counts xs) = map (count_list xs) (map fst (value_counts xs))"
  by (simp add: value_counts_entry)

lemma map_of_value_counts:
  "t \<in> set xs \<Longrightarrow> map_of (value_counts xs) t = Some (count_list xs t)"
proof -
  assume "t \<in> set xs"
  then have "(t, count_list xs t) \<in> set (value_counts xs)"
    by (simp add: value_counts_def)
  then show ?thesis
    using distinct_keys_value_counts [of xs] by simp
qed

lemma value_counts_sorted:
  "sorted_wrt (\<lambda>a b. b \<le> a) (map snd (value_counts xs))"
proof -
  have "sorted (map (\<lambda>kc. - int (snd kc)) (value_counts xs))"
    unfolding value_counts_def by (rule sorted_sort_key)
  then show ?thesis
    by (simp add: sorted_map sorted_wrt_map)
qed

lemma map_of_keyed:
  "t \<in> set ks \<Longrightarrow> map_of (map (\<lambda>k. (k, g k)) ks) t = Some (g t)"
  by (induction ks) auto

lemma lookup_each_keyed:
  "set ts \<subseteq> set ks \<Longrightarrow>
   lookup_each (map (\<lambda>k. (k, g k)) ks) f ts = Some (map (\<lambda>t. f (g t)) ts)"
  by (induction ts) (auto simp: map_of_keyed)

lemma lookup_stats:
  "lookup_each (compute_stats_by_type df) f (map fst (compute_stats_by_type df))
     = Some (map (\<lambda>t. f (stats_for_type df t)) (unique (map type df)))"
  unfolding keys_stats_by_type
  unfolding compute_stats_by_type_eq
  by (rule lookup_each_keyed) simp

lemma compute_analytics_maps:
  "type_distribution (compute_analytics df) = compute_type_distribution df"
  "stats_by_type (compute_analytics df) = compute_stats_by_type df"
  "total_count (compute_analytics df) = length df"
  by (simp_all add: compute_analytics_def empty_analytics_def
        compute_type_distribution_def value_counts_def compute_stats_by_type_def)

lemma get_chart_data_computed:
  "get_chart_data (compute_analytics df) =
     Some \<lparr> bar_chart =
              \<lparr> bar_labels = unique (map type df),
                bar_datasets =
                  [ \<lparr> label = ''Avg Flowrate'',
                      data = map (\<lambda>t. avg (flowrate_st (stats_for_type df t))) (unique (map type df)) \<rparr>,
                    \<lparr> label = ''Avg Pressure'',
                      data = map (\<lambda>t. avg (pressure_st (stats_for_type df t))) (unique (map type df)) \<rparr>,
                    \<lparr> label = ''Avg Temperature'',
                      data = map (\<lambda>t. avg (temperature_st (stats_for_type df t))) (unique (map type df)) \<rparr> ] \<rparr>,
            pie_chart =
              \<lparr> pie_labels = map fst (value_counts (map type df)),
                pie_data = map snd (value_counts (map type df)) \<rparr> \<rparr>"
  unfolding get_chart_data_def Let_def compute_analytics_maps lookup_stats
  by (simp add: keys_stats_by_type compute_type_distribution_def)


lemma s_std_sample: "length vs > 1 \<Longrightarrow> s_std vs = sample_std vs"
  by (simp add: sample_std_def s_std_def s_mean_def of_nat_diff)

lemma stats_for_type_sel:
  "count_t (stats_for_type df t) = length (filter (\<lambda>r. type r = t) df)"
  "avg (flowrate_st (stats_for_type df t)) = s_mean (map flowrate (filter (\<lambda>r. type r = t) df))"
  "avg (pressure_st (stats_for_type df t)) = s_mean (map pressure (filter (\<lambda>r. type r = t) df))"
  "avg (temperature_st (stats_for_type df t)) = s_mean (map temperature (filter (\<lambda>r. type r = t) df))"
  "std (flowrate_st (stats_for_type df t)) = spec_std (map flowrate (filter (\<lambda>r. type r = t) df))"
  "std (pressure_st (stats_for_type df t)) = spec_std (map pressure (filter (\<lambda>r. type r = t) df))"
  "std (temperature_st (stats_for_type df t)) = spec_std (map temperature (filter (\<lambda>r. type r = t) df))"
  by (simp_all add: stats_for_type_def Let_def spec_std_def s_std_sample)

lemma compute_analytics_std:
  "std_flowrate (compute_analytics df) = spec_std (map flowrate df)"
  "std_pressure (compute_analytics df) = spec_std (map pressure df)"
  "std_temperature (compute_analytics df) = spec_std (map temperature df)"
  by (simp_all add: compute_analytics_def empty_analytics_def spec_std_def s_std_sample)

subsection \<open>Claims about the aggregator\<close>

text \<open>
  C5. \<open>compute_analytics\<close> on the empty row collection returns the canonical empty
  snapshot: \<open>total_count\<close> is 0, each of the avg/min/max/std fields of flowrate, pressure
  and temperature is 0.0, and \<open>type_distribution\<close> and \<open>stats_by_type\<close> are both empty.
\<close>

theorem compute_analytics_empty:
  "compute_analytics [] = empty_analytics
   \<and> total_count (compute_analytics []) = 0
   \<and> avg_flowrate (compute_analytics []) = 0
   \<and> avg_pressure (compute_analytics []) = 0
   \<and> avg_temperature (compute_analytics []) = 0
   \<and> min_flowrate (compute_analytics []) = 0
   \<and> max_flowrate (compute_analytics []) = 0
   \<and> min_pressure (compute_analytics []) = 0
   \<and> max_pressure (compute_analytics []) = 0
   \<and> min_temperature (compute_analytics []) = 0
   \<and> max_temperature (compute_analytics []) = 0
   \<and> std_flowrate (compute_analytics []) = 0
   \<and> std_pressure (compute_analytics []) = 0
   \<and> std_temperature (compute_analytics []) = 0
   \<and> type_distribution (compute_analytics []) = []
   \<and> stats_by_type (compute_analytics []) = []"
  by (simp add: compute_analytics_def empty_analytics_def)

text \<open>
  C7. In every computed snapshot the values of \<open>type_distribution\<close> add up to
  \<open>total_count\<close>, and the chart view of the snapshot exists (no \<open>KeyError\<close>) with
  \<open>pie_chart.data\<close> adding up to \<open>total_count\<close> as well.
\<close>

theorem type_distribution_sums_to_total:
  "sum_list (map snd (type_distribution (compute_analytics df))) = total_count (compute_analytics df)
   \<and> (\<exists>c. get_chart_data (compute_analytics df) = Some c
          \<and> sum_list (pie_data (pie_chart c)) = total_count (compute_analytics df))"
  by (simp add: get_chart_data_computed compute_analytics_maps compute_type_distribution_def
        sum_value_counts)

text \<open>
  C10. For a non-empty row collection, \<open>stats_by_type\<close> and \<open>type_distribution\<close> have the
  same set of keys, and the \<open>count\<close> field of every \<open>stats_by_type\<close> entry is the value
  \<open>type_distribution\<close> holds for that type.
\<close>

theorem stats_by_type_keys_and_counts:
  assumes "df \<noteq> []"
  shows "set (map fst (stats_by_type (compute_analytics df)))
           = set (map fst (type_distribution (compute_analytics df)))
         \<and> (\<forall>(t, s) \<in> set (stats_by_type (compute_analytics df)).
               map_of (type_distribution (compute_analytics df)) t = Some (count_t s))"
proof -
  have keys: "set (map fst (compute_stats_by_type df)) = set (map fst (value_counts (map type df)))"
    unfolding keys_stats_by_type keys_value_counts_set by simp
  have cnt: "map_of (value_counts (map type df)) t = Some (count_t s)"
    if "(t, s) \<in> set (compute_stats_by_type df)" for t s
  proof -
    from that have t: "t \<in> set (map type df)" and s: "s = stats_for_type df t"
      by (auto simp: compute_stats_by_type_eq)
    have "count_t s = count_list (map type df) t"
      by (simp add: s stats_for_type_sel count_list_filter_length)
    with map_of_value_counts [OF t] show ?thesis by simp
  qed
  show ?thesis
    unfolding compute_analytics_maps compute_type_distribution_def
    using keys cnt by blast
qed

theorem stats_by_type_keys_and_counts_witness:
  "rows_vpp \<noteq> []
   \<and> map fst (stats_by_type (compute_analytics rows_vpp)) = [''Valve'', ''Pump'']
   \<and> type_distribution (compute_analytics rows_vpp) = [(''Pump'', 2), (''Valve'', 1)]
   \<and> map (\<lambda>(t, s). count_t s) (stats_by_type (compute_analytics rows_vpp)) = [1, 2]"
proof -
  have ne: "rows_vpp \<noteq> []" by (simp add: rows_vpp_def)
  have td: "type_distribution (compute_analytics rows_vpp) = [(''Pump'', 2), (''Valve'', 1)]"
    by (simp add: compute_analytics_maps compute_type_distribution_def value_counts_def
          unique_def rows_vpp_def)
  have ks: "map fst (stats_by_type (compute_analytics rows_vpp)) = [''Valve'', ''Pump'']"
    by (simp add: compute_analytics_maps keys_stats_by_type unique_def rows_vpp_def)
  show ?thesis
    using stats_by_type_keys_and_counts [OF ne] ne td ks
    by (auto simp: map_eq_Cons_conv)
qed

text \<open>
  C2, as stated: \<open>pie_chart.labels\<close> and \<open>bar_chart.labels\<close> hold the same type names in
  the same order. For the rows Valve, Pump, Pump the pie labels are Pump, Valve (most
  frequent first, as \<open>value_counts\<close> orders them) and the bar labels are Valve, Pump
  (first appearance, as \<open>unique\<close> orders them).
\<close>

theorem chart_labels_order_counterexample:
  "get_chart_data (compute_analytics rows_vpp) = Some chart_vpp
   \<and> pie_labels (pie_chart chart_vpp) \<noteq> bar_labels (bar_chart chart_vpp)"
  by (simp add: get_chart_data_computed value_counts_def unique_def rows_vpp_def
        stats_for_type_sel s_mean_def chart_vpp_def)

text \<open>
  C2, amended. For every computed snapshot the chart view exists, and its two label
  lists hold the same type names, each once, so that one is a permutation of the other;
  the bar labels are in order of first appearance in the rows, the pie labels in
  descending order of their counts. Each of the three bar series is aligned with
  \<open>bar_chart.labels\<close> (its entry at a position is the average over the rows of the type
  at that position), and \<open>pie_chart.data\<close> is aligned with \<open>pie_chart.labels\<close>.
\<close>

theorem chart_labels_permutation:
  "\<exists>c. get_chart_data (compute_analytics df) = Some c
     \<and> mset (pie_labels (pie_chart c)) = mset (bar_labels (bar_chart c))
     \<and> distinct (bar_labels (bar_chart c))
     \<and> bar_labels (bar_chart c) = unique (map type df)
     \<and> map data (bar_datasets (bar_chart c)) =
         [ map (\<lambda>t. s_mean (map flowrate (filter (\<lambda>r. type r = t) df))) (bar_labels (bar_chart c)),
           map (\<lambda>t. s_mean (map pressure (filter (\<lambda>r. type r = t) df))) (bar_labels (bar_chart c)),
           map (\<lambda>t. s_mean (map temperature (filter (\<lambda>r. type r = t) df))) (bar_labels (bar_chart c)) ]
     \<and> pie_data (pie_chart c) =
         map (\<lambda>t. length (filter (\<lambda>r. type r = t) df)) (pie_labels (pie_chart c))
     \<and> sorted_wrt (\<lambda>a b. b \<le> a) (pie_data (pie_chart c))"
proof -
  have perm: "mset (map fst (value_counts (map type df))) = mset (unique (map type df))"
    by (simp add: value_counts_def multiset.map_comp comp_def)
  have pd: "map snd (value_counts (map type df)) =
      map (\<lambda>t. length (filter (\<lambda>r. type r = t) df)) (map fst (value_counts (map type df)))"
    using value_counts_snd [of "map type df"]
    by (simp add: count_list_filter_length comp_def)
  show ?thesis
    unfolding get_chart_data_computed
    using perm pd value_counts_sorted [of "map type df"]
    by (simp add: stats_for_type_sel)
qed

text \<open>
  C6. Each standard deviation of the snapshot, over the whole row set and in every entry
  of \<open>stats_by_type\<close>, is the sample standard deviation (dividing by \<open>N - 1\<close>) of the
  values concerned when there are at least two of them, and \<open>0.0\<close> otherwise; so it is
  \<open>0.0\<close> for a partition, or a whole set, of exactly one row.
\<close>

theorem std_is_guarded_sample_std:
  "std_flowrate (compute_analytics df) = spec_std (map flowrate df)
   \<and> std_pressure (compute_analytics df) = spec_std (map pressure df)
   \<and> std_temperature (compute_analytics df) = spec_std (map temperature df)
   \<and> (\<forall>(t, s) \<in> set (stats_by_type (compute_analytics df)).
        std (flowrate_st s) = spec_std (map flowrate (filter (\<lambda>r. type r = t) df))
      \<and> std (pressure_st s) = spec_std (map pressure (filter (\<lambda>r. type r = t) df))
      \<and> std (temperature_st s) = spec_std (map temperature (filter (\<lambda>r. type r = t) df)))"
proof -
  have part: "std (flowrate_st s) = spec_std (map flowrate (filter (\<lambda>r. type r = t) df))
      \<and> std (pressure_st s) = spec_std (map pressure (filter (\<lambda>r. type r = t) df))
      \<and> std (temperature_st s) = spec_std (map temperature (filter (\<lambda>r. type r = t) df))"
    if "(t, s) \<in> set (compute_stats_by_type df)" for t s
  proof -
    from that have s: "s = stats_for_type df t"
      by (auto simp: compute_stats_by_type_eq)
    show ?thesis
      unfolding s by (simp add: stats_for_type_sel)
  qed
  show ?thesis
    unfolding compute_analytics_maps compute_analytics_std
    using part by blast
qed

theorem std_is_guarded_sample_std_witness:
  "std_flowrate (compute_analytics rows_vpp) = sqrt (175 / 3)
   \<and> map (\<lambda>(t, s). (t, std (flowrate_st s))) (stats_by_type (compute_analytics rows_vpp))
       = [(''Valve'', 0), (''Pump'', sqrt 50)]"
proof -
  have sbt: "stats_by_type (compute_analytics rows_vpp) =
      [(''Valve'', stats_for_type rows_vpp ''Valve''), (''Pump'', stats_for_type rows_vpp ''Pump'')]"
    by (simp add: compute_analytics_maps compute_stats_by_type_eq unique_def rows_vpp_def)
  have whole: "spec_std (map flowrate rows_vpp) = sqrt (175 / 3)"
    by (simp add: rows_vpp_def spec_std_def sample_std_def power2_eq_square)
  have valve: "spec_std (map flowrate (filter (\<lambda>r. type r = ''Valve'') rows_vpp)) = 0"
    by (simp add: rows_vpp_def spec_std_def)
  have pump: "spec_std (map flowrate (filter (\<lambda>r. type r = ''Pump'') rows_vpp)) = sqrt 50"
    by (simp add: rows_vpp_def spec_std_def sample_std_def power2_eq_square)
  show ?thesis
    using std_is_guarded_sample_std [of rows_vpp] whole valve pump
    by (simp add: sbt)
qed

subsection \<open>Minimum, mean and maximum\<close>

lemma s_min_le: "x \<in> set xs \<Longrightarrow> s_min xs \<le> x"
proof (cases xs)
  case Nil
  then show "x \<in> set xs \<Longrightarrow> s_min xs \<le> x" by simp
next
  case (Cons y ys)
  assume "x \<in> set xs"
  moreover have "s_min xs = Min (set xs)"
    using Cons Min.set_eq_fold [of y ys] by simp
  ultimately show "s_min xs \<le> x" by simp
qed

lemma s_max_ge: "x \<in> set xs \<Longrightarrow> x \<le> s_max xs"
proof (cases xs)
  case Nil
  then show "x \<in> set xs \<Longrightarrow> x \<le> s_max xs" by simp
next
  case (Cons y ys)
  assume "x \<in> set xs"
  moreover have "s_max xs = Max (set xs)"
    using Cons Max.set_eq_fold [of y ys] by simp
  ultimately show "x \<le> s_max xs" by simp
qed

lemma sum_list_lower:
  "(\<And>x. x \<in> set xs \<Longrightarrow> (a::real) \<le> x) \<Longrightarrow> real (length xs) * a \<le> sum_list xs"
proof (induction xs)
  case Nil
  show ?case by simp
next
  case (Cons y ys)
  have "a \<le> y" using Cons.prems by simp
  moreover have "real (length ys) * a \<le> sum_list ys"
    using Cons.IH Cons.prems by simp
  ultimately show ?case by (simp add: algebra_simps)
qed

lemma sum_list_upper:
  "(\<And>x. x \<in> set xs \<Longrightarrow> x \<le> (b::real)) \<Longrightarrow> sum_list xs \<le> real (length xs) * b"
proof (induction xs)
  case Nil
  show ?case by simp
next
  case (Cons y ys)
  have "y \<le> b" using Cons.prems by simp
  moreover have "sum_list ys \<le> real (length ys) * b"
    using Cons.IH Cons.prems by simp
  ultimately show ?case by (simp add: algebra_simps)
qed

lemma s_mean_between:
  assumes "xs \<noteq> []"
  shows "s_min xs \<le> s_mean xs" and "s_mean xs \<le> s_max xs"
proof -
  have pos: "0 < real (length xs)" using assms by simp
  have "real (length xs) * s_min xs \<le> sum_list xs"
    by (rule sum_list_lower) (rule s_min_le)
  then show "s_min xs \<le> s_mean xs"
    using pos by (simp add: s_mean_def pos_le_divide_eq mult.commute)
  have "sum_list xs \<le> real (length xs) * s_max xs"
    by (rule sum_list_upper) (rule s_max_ge)
  then show "s_mean xs \<le> s_max xs"
    using pos by (simp add: s_mean_def pos_divide_le_eq mult.commute)
qed

lemma stats_for_type_min_max:
  "min_f (flowrate_st (stats_for_type df t)) = s_min (map flowrate (filter (\<lambda>r. type r = t) df))"
  "max_f (flowrate_st (stats_for_type df t)) = s_max (map flowrate (filter (\<lambda>r. type r = t) df))"
  "min_f (pressure_st (stats_for_type df t)) = s_min (map pressure (filter (\<lambda>r. type r = t) df))"
  "max_f (pressure_st (stats_for_type df t)) = s_max (map pressure (filter (\<lambda>r. type r = t) df))"
  "min_f (temperature_st (stats_for_type df t)) = s_min (map temperature (filter (\<lambda>r. type r = t) df))"
  "max_f (temperature_st (stats_for_type df t)) = s_max (map temperature (filter (\<lambda>r. type r = t) df))"
  by (simp_all add: stats_for_type_def Let_def)

subsection \<open>The rounding model\<close>

lemma floor_log2_bounds:
  assumes "0 < x"
  shows "2 powi floor_log2 x \<le> x" and "x < 2 powi (floor_log2 x + 1)"
proof -
  have both: "2 powi floor_log2 x \<le> x \<and> x < 2 powi (floor_log2 x + 1)"
  proof (cases "1 \<le> x")
    case True
    let ?n = "\<lfloor>x\<rfloor>"
    let ?b = "bitlen ?n"
    have n: "0 < ?n" using True by simp
    from bitlen_bounds [OF n] have lo: "2 ^ nat (?b - 1) \<le> ?n" and hi: "?n < 2 ^ nat ?b"
      by blast+
    have b1: "1 \<le> ?b" using n by (simp add: bitlen_alt_def)
    have fl: "floor_log2 x = ?b - 1" using True by (simp add: floor_log2_def)
    have "real_of_int (2 ^ nat (?b - 1)) \<le> real_of_int ?n" using lo by linarith
    then have "2 ^ nat (?b - 1) \<le> real_of_int ?n" by simp
    moreover have "real_of_int ?n \<le> x" by linarith
    ultimately have lower: "2 ^ nat (?b - 1) \<le> x" by linarith
    have "?n + 1 \<le> 2 ^ nat ?b" using hi by simp
    then have "real_of_int (?n + 1) \<le> real_of_int (2 ^ nat ?b)" by linarith
    then have "real_of_int ?n + 1 \<le> 2 ^ nat ?b" by simp
    moreover have "x < real_of_int ?n + 1" by linarith
    ultimately have upper: "x < 2 ^ nat ?b" by linarith
    show ?thesis
      using b1 lower upper by (simp add: fl power_int_def)
  next
    case False
    let ?z = "1 / x"
    let ?k = "\<lceil>?z\<rceil> - 1"
    let ?b = "bitlen ?k"
    from False assms have z: "1 < ?z" by simp
    then have k: "0 < ?k" by linarith
    from bitlen_bounds [OF k] have lo: "2 ^ nat (?b - 1) \<le> ?k" and hi: "?k < 2 ^ nat ?b"
      by blast+
    have b1: "1 \<le> ?b" using k by (simp add: bitlen_alt_def)
    have fl: "floor_log2 x = - ?b" using False by (simp add: floor_log2_def)
    have "?k + 1 \<le> 2 ^ nat ?b" using hi by simp
    then have "real_of_int (?k + 1) \<le> real_of_int (2 ^ nat ?b)" by linarith
    then have "real_of_int \<lceil>?z\<rceil> \<le> 2 ^ nat ?b" by simp
    moreover have "?z \<le> real_of_int \<lceil>?z\<rceil>" by linarith
    ultimately have zle: "?z \<le> 2 ^ nat ?b" by linarith
    have "real_of_int (2 ^ nat (?b - 1)) \<le> real_of_int ?k" using lo by linarith
    then have "2 ^ nat (?b - 1) \<le> real_of_int \<lceil>?z\<rceil> - 1" by simp
    moreover have "real_of_int \<lceil>?z\<rceil> - 1 < ?z" by linarith
    ultimately have zgt: "2 ^ nat (?b - 1) < ?z" by linarith
    have p1: "0 < (2::real) ^ nat ?b" and p2: "0 < (2::real) ^ nat (?b - 1)" by simp_all
    have "1 / 2 ^ nat ?b \<le> x"
      using zle assms p1 by (simp add: field_simps)
    moreover have "x < 1 / 2 ^ nat (?b - 1)"
      using zgt assms p2 by (simp add: field_simps)
    moreover have "2 powi (- ?b) = 1 / (2::real) ^ nat ?b"
      using b1 by (simp add: power_int_def inverse_eq_divide power_one_over)
    moreover have "2 powi (- ?b + 1) = 1 / (2::real) ^ nat (?b - 1)"
    proof (cases "?b = 1")
      case True
      then show ?thesis by (simp add: power_int_def)
    next
      case False
      with b1 have "- ?b + 1 < 0" and "nat (- (- ?b + 1)) = nat (?b - 1)" by simp_all
      then show ?thesis
        by (simp add: power_int_def inverse_eq_divide power_one_over)
    qed
    ultimately show ?thesis by (simp add: fl)
  qed
  from both show "2 powi floor_log2 x \<le> x" and "x < 2 powi (floor_log2 x + 1)" by blast+
qed

lemma round_half_even_error: "\<bar>real_of_int (round_half_even y) - y\<bar> \<le> 1 / 2"
proof -
  have lo: "real_of_int \<lfloor>y\<rfloor> \<le> y" and hi: "y < real_of_int \<lfloor>y\<rfloor> + 1"
    by linarith+
  consider "y - real_of_int \<lfloor>y\<rfloor> < 1 / 2" | "1 / 2 < y - real_of_int \<lfloor>y\<rfloor>"
    | "y - real_of_int \<lfloor>y\<rfloor> = 1 / 2"
    by linarith
  then show ?thesis
  proof cases
    case 1
    then have "round_half_even y = \<lfloor>y\<rfloor>" by (simp add: round_half_even_def Let_def)
    with lo 1 show ?thesis by simp
  next
    case 2
    then have "round_half_even y = \<lfloor>y\<rfloor> + 1" by (simp add: round_half_even_def Let_def)
    with hi 2 show ?thesis by simp
  next
    case 3
    then have "round_half_even y = \<lfloor>y\<rfloor> \<or> round_half_even y = \<lfloor>y\<rfloor> + 1"
      by (simp add: round_half_even_def Let_def)
    with 3 show ?thesis by auto
  qed
qed

lemma round64_error:
  assumes "round64 x = Some r"
  shows "\<bar>r - x\<bar> \<le> 2 powi (max (floor_log2 \<bar>x\<bar>) (- 1022) - 52) / 2"
proof (cases "x = 0")
  case True
  with assms show ?thesis by (simp add: round64_def)
next
  case False
  let ?e = "max (floor_log2 \<bar>x\<bar>) (- 1022) - 52"
  let ?m = "round_half_even (x / 2 powi ?e)"
  have r: "r = of_int ?m * 2 powi ?e"
    using assms False by (simp add: round64_def Let_def split: if_splits)
  have pos: "0 < (2::real) powi ?e" by simp
  have "r - x = (of_int ?m - x / 2 powi ?e) * 2 powi ?e"
    using pos by (simp add: r field_simps)
  then have "\<bar>r - x\<bar> = \<bar>of_int ?m - x / 2 powi ?e\<bar> * 2 powi ?e"
    using pos by (simp add: abs_mult)
  also have "\<dots> \<le> (1 / 2) * 2 powi ?e"
    using round_half_even_error [of "x / 2 powi ?e"] pos
    by (intro mult_right_mono) simp_all
  finally show ?thesis by simp
qed

subsection \<open>Claim C8\<close>

text \<open>
  C8, as stated: in every snapshot of a non-empty row collection the stored avg of a
  field lies between the stored min and max. Three rows whose flowrate is the binary64
  number written \<open>0.1\<close>: the sums are \<open>0.1\<close>, \<open>0.2\<close> and (rounded up from a tie)
  \<open>0.30000000000000004\<close>, and the quotient by 3 rounds to \<open>0.10000000000000002\<close>, one
  unit in the last place above the maximum \<open>0.1\<close>.
\<close>

theorem stored_avg_exceeds_max_counterexample:
  "round64 (1 / 10) = Some tenth
   \<and> max_flowrate (compute_analytics rows_tenths) = tenth
   \<and> avg64 flowrate rows_tenths = Some (tenth + 1 / 2 ^ 56)
   \<and> max_flowrate (compute_analytics rows_tenths) < tenth + 1 / 2 ^ 56"
proof -
  have a: "round64 (1 / 10) = Some tenth" by code_simp
  have b: "max_flowrate (compute_analytics rows_tenths) = tenth"
    by (simp add: compute_analytics_def rows_tenths_def)
  have c: "mean64 [tenth, tenth, tenth] = Some (tenth + 1 / 2 ^ 56)" by code_simp
  have d: "avg64 flowrate rows_tenths = Some (tenth + 1 / 2 ^ 56)"
    using c by (simp add: avg64_def rows_tenths_def)
  show ?thesis using a b d by simp
qed

text \<open>
  C8, amended. For every non-empty row collection the arithmetic mean of each of
  flowrate, pressure and temperature, taken without rounding, lies between the minimum
  and the maximum of the field, over the full row set and within every type-partition
  recorded in \<open>stats_by_type\<close>. (The avg the code stores is this mean computed in
  binary64, which can leave the interval by rounding, as above.)
\<close>

theorem exact_mean_between_min_and_max:
  assumes "df \<noteq> []"
  shows "min_flowrate (compute_analytics df) \<le> avg_flowrate (compute_analytics df)
       \<and> avg_flowrate (compute_analytics df) \<le> max_flowrate (compute_analytics df)
       \<and> min_pressure (compute_analytics df) \<le> avg_pressure (compute_analytics df)
       \<and> avg_pressure (compute_analytics df) \<le> max_pressure (compute_analytics df)
       \<and> min_temperature (compute_analytics df) \<le> avg_temperature (compute_analytics df)
       \<and> avg_temperature (compute_analytics df) \<le> max_temperature (compute_analytics df)
       \<and> (\<forall>(t, s) \<in> set (stats_by_type (compute_analytics df)).
             min_f (flowrate_st s) \<le> avg (flowrate_st s)
           \<and> avg (flowrate_st s) \<le> max_f (flowrate_st s)
           \<and> min_f (pressure_st s) \<le> avg (pressure_st s)
           \<and> avg (pressure_st s) \<le> max_f (pressure_st s)
           \<and> min_f (temperature_st s) \<le> avg (temperature_st s)
           \<and> avg (temperature_st s) \<le> max_f (temperature_st s))"
proof -
  have whole: "map f df \<noteq> []" for f :: "equipment \<Rightarrow> real"
    using assms by simp
  have glob: "min_flowrate (compute_analytics df) \<le> avg_flowrate (compute_analytics df)"
    "avg_flowrate (compute_analytics df) \<le> max_flowrate (compute_analytics df)"
    "min_pressure (compute_analytics df) \<le> avg_pressure (compute_analytics df)"
    "avg_pressure (compute_analytics df) \<le> max_pressure (compute_analytics df)"
    "min_temperature (compute_analytics df) \<le> avg_temperature (compute_analytics df)"
    "avg_temperature (compute_analytics df) \<le> max_temperature (compute_analytics df)"
    using assms s_mean_between [OF whole]
    by (simp_all add: compute_analytics_def)
  have part: "min_f (flowrate_st s) \<le> avg (flowrate_st s)
           \<and> avg (flowrate_st s) \<le> max_f (flowrate_st s)
           \<and> min_f (pressure_st s) \<le> avg (pressure_st s)
           \<and> avg (pressure_st s) \<le> max_f (pressure_st s)
           \<and> min_f (temperature_st s) \<le> avg (temperature_st s)
           \<and> avg (temperature_st s) \<le> max_f (temperature_st s)"
    if "(t, s) \<in> set (compute_stats_by_type df)" for t s
  proof -
    from that have t: "t \<in> set (map type df)" and s: "s = stats_for_type df t"
      by (auto simp: compute_stats_by_type_eq)
    from t have "filter (\<lambda>r. type r = t) df \<noteq> []"
      by (auto simp: filter_empty_conv)
    then have ne: "map f (filter (\<lambda>r. type r = t) df) \<noteq> []" for f :: "equipment \<Rightarrow> real"
      by simp
    show ?thesis
      unfolding s stats_for_type_min_max stats_for_type_sel
      using s_mean_between [OF ne] by simp
  qed
  show ?thesis
    unfolding compute_analytics_maps
    using glob part by blast
qed

theorem exact_mean_between_min_and_max_witness:
  "rows_vpp \<noteq> []
   \<and> min_flowrate (compute_analytics rows_vpp) = 5
   \<and> avg_flowrate (compute_analytics rows_vpp) = 35 / 3
   \<and> max_flowrate (compute_analytics rows_vpp) = 20
   \<and> min_flowrate (compute_analytics rows_vpp) \<le> avg_flowrate (compute_analytics rows_vpp)
   \<and> avg_flowrate (compute_analytics rows_vpp) \<le> max_flowrate (compute_analytics rows_vpp)
   \<and> map (\<lambda>(t, s). (t, min_f (flowrate_st s), avg (flowrate_st s), max_f (flowrate_st s)))
         (stats_by_type (compute_analytics rows_vpp))
       = [(''Valve'', 5, 5, 5), (''Pump'', 10, 15, 20)]"
proof -
  have ne: "rows_vpp \<noteq> []" by (simp add: rows_vpp_def)
  have vals: "min_flowrate (compute_analytics rows_vpp) = 5"
    "avg_flowrate (compute_analytics rows_vpp) = 35 / 3"
    "max_flowrate (compute_analytics rows_vpp) = 20"
    by (simp_all add: compute_analytics_def rows_vpp_def s_mean_def)
  have sbt: "map (\<lambda>(t, s). (t, min_f (flowrate_st s), avg (flowrate_st s), max_f (flowrate_st s)))
         (stats_by_type (compute_analytics rows_vpp))
       = [(''Valve'', 5, 5, 5), (''Pump'', 10, 15, 20)]"
    by (simp add: compute_analytics_maps compute_stats_by_type_eq unique_def rows_vpp_def
          stats_for_type_min_max stats_for_type_sel s_mean_def)
  show ?thesis
    using exact_mean_between_min_and_max [OF ne] ne vals sbt by simp
qed

section \<open>Properties of the ingestor\<close>

subsection \<open>Strings and required columns\<close>

lemma is_space_lower_char: "is_space (lower_char c) = is_space c"
  unfolding is_space_def lower_char_def Let_def
  by auto

lemma dropWhile_space_lower:
  "dropWhile is_space (map lower_char s) = map lower_char (dropWhile is_space s)"
  by (induction s) (simp_all add: is_space_lower_char)

lemma strip_lower: "strip (lower h) = lower (strip h)"
  by (simp add: strip_def lower_def dropWhile_space_lower rev_map)

lemma header_matches_code: "header_matches h col \<longleftrightarrow> strip (lower h) = lower col"
  by (simp add: header_matches_def strip_lower)

lemma required_clean_all: "list_all (\<lambda>c. strip (lower c) = lower c) REQUIRED_COLUMNS"
  by code_simp

lemma required_lower_distinct: "distinct (map lower REQUIRED_COLUMNS)"
  by code_simp

lemma required_clean: "c \<in> set REQUIRED_COLUMNS \<Longrightarrow> strip (lower c) = lower c"
  using required_clean_all by (simp add: list_all_iff)

lemma required_lower_inj:
  "c \<in> set REQUIRED_COLUMNS \<Longrightarrow> c' \<in> set REQUIRED_COLUMNS \<Longrightarrow> lower c = lower c' \<Longrightarrow> c = c'"
  using required_lower_distinct by (auto simp: distinct_map dest: inj_onD)

subsection \<open>Column validation\<close>

lemma find_actual_None:
  "find_actual hs col = None \<longleftrightarrow> (\<forall>h\<in>set hs. strip (lower h) \<noteq> lower col)"
  by (induction hs) auto

lemma find_actual_Some:
  "find_actual hs col = Some a \<Longrightarrow> a \<in> set hs \<and> strip (lower a) = lower col"
  by (induction hs) (auto split: if_splits)

lemma rename_column_simps [simp]:
  "rows (rename_column a c df) = rows df"
  "columns (rename_column a c df) = map (\<lambda>h. if h = a then c else h) (columns df)"
  by (simp_all add: rename_column_def)

lemma rename_keeps_keys:
  assumes "strip (lower a) = lower c" and "strip (lower c) = lower c"
  shows "map (\<lambda>h. strip (lower h)) (columns (rename_column a c df))
           = map (\<lambda>h. strip (lower h)) (columns df)"
  using assms by (simp add: comp_def)

lemma matched_iff_keys:
  "(\<exists>h\<in>set hs. strip (lower h) = k) \<longleftrightarrow> k \<in> set (map (\<lambda>h. strip (lower h)) hs)"
  by auto

lemma validate_columns_loop_spec:
  assumes "set cols \<subseteq> set REQUIRED_COLUMNS"
  shows "\<exists>df'. validate_columns_loop cols df missing =
                 (df', missing @ filter (\<lambda>c. \<forall>h\<in>set (columns df). strip (lower h) \<noteq> lower c) cols)
            \<and> rows df' = rows df
            \<and> list_all2 (\<lambda>h h'. h' = h \<or> (h' \<in> set REQUIRED_COLUMNS \<and> strip (lower h) = lower h'))
                 (columns df) (columns df')
            \<and> (\<forall>c\<in>set REQUIRED_COLUMNS. c \<in> set (columns df) \<longrightarrow> c \<in> set (columns df'))
            \<and> (\<forall>c\<in>set cols. (\<exists>h\<in>set (columns df). strip (lower h) = lower c)
                   \<longrightarrow> c \<in> set (columns df'))"
  using assms
proof (induction cols arbitrary: df missing)
  case Nil
  show ?case by (simp add: list_all2_refl)
next
  case (Cons col cols)
  let ?R = "\<lambda>h h'. h' = h \<or> (h' \<in> set REQUIRED_COLUMNS \<and> strip (lower h) = lower h')"
  from Cons.prems have col_req: "col \<in> set REQUIRED_COLUMNS"
    and rest: "set cols \<subseteq> set REQUIRED_COLUMNS" by auto
  have col_clean: "strip (lower col) = lower col" using col_req by (rule required_clean)
  show ?case
  proof (cases "col \<in> set (columns df)")
    case True
    then have matched: "\<exists>h\<in>set (columns df). strip (lower h) = lower col"
      using col_clean by blast
    from Cons.IH [OF rest, of df missing] obtain df' where
      run: "validate_columns_loop cols df missing =
              (df', missing @ filter (\<lambda>c. \<forall>h\<in>set (columns df). strip (lower h) \<noteq> lower c) cols)"
      and rws: "rows df' = rows df"
      and rel: "list_all2 ?R (columns df) (columns df')"
      and keep: "\<forall>c\<in>set REQUIRED_COLUMNS. c \<in> set (columns df) \<longrightarrow> c \<in> set (columns df')"
      and add: "\<forall>c\<in>set cols. (\<exists>h\<in>set (columns df). strip (lower h) = lower c)
                   \<longrightarrow> c \<in> set (columns df')"
      by blast
    have "validate_columns_loop (col # cols) df missing =
            (df', missing @ filter (\<lambda>c. \<forall>h\<in>set (columns df). strip (lower h) \<noteq> lower c) (col # cols))"
      using True matched run by auto
    moreover have "\<forall>c\<in>set (col # cols). (\<exists>h\<in>set (columns df). strip (lower h) = lower c)
                   \<longrightarrow> c \<in> set (columns df')"
      using add keep col_req True by auto
    ultimately show ?thesis using rws rel keep by blast
  next
    case False
    show ?thesis
    proof (cases "find_actual (columns df) col")
      case None
      then have unmatched: "\<forall>h\<in>set (columns df). strip (lower h) \<noteq> lower col"
        by (simp add: find_actual_None)
      from Cons.IH [OF rest, of df "missing @ [col]"] obtain df' where
        run: "validate_columns_loop cols df (missing @ [col]) =
                (df', (missing @ [col]) @ filter (\<lambda>c. \<forall>h\<in>set (columns df). strip (lower h) \<noteq> lower c) cols)"
        and rws: "rows df' = rows df"
        and rel: "list_all2 ?R (columns df) (columns df')"
        and keep: "\<forall>c\<in>set REQUIRED_COLUMNS. c \<in> set (columns df) \<longrightarrow> c \<in> set (columns df')"
        and add: "\<forall>c\<in>set cols. (\<exists>h\<in>set (columns df). strip (lower h) = lower c)
                     \<longrightarrow> c \<in> set (columns df')"
        by blast
      have "validate_columns_loop (col # cols) df missing =
              (df', missing @ filter (\<lambda>c. \<forall>h\<in>set (columns df). strip (lower h) \<noteq> lower c) (col # cols))"
        using False None unmatched run by simp
      moreover have "\<forall>c\<in>set (col # cols). (\<exists>h\<in>set (columns df). strip (lower h) = lower c)
                     \<longrightarrow> c \<in> set (columns df')"
        using add unmatched by auto
      ultimately show ?thesis using rws rel keep by blast
    next
      case (Some a)
      then have a_in: "a \<in> set (columns df)" and a_key: "strip (lower a) = lower col"
        using find_actual_Some by blast+
      let ?df1 = "rename_column a col df"
      have keys: "map (\<lambda>h. strip (lower h)) (columns ?df1) = map (\<lambda>h. strip (lower h)) (columns df)"
        using a_key col_clean by (rule rename_keeps_keys)
      have same_match: "(\<exists>h\<in>set (columns ?df1). strip (lower h) = k)
                          \<longleftrightarrow> (\<exists>h\<in>set (columns df). strip (lower h) = k)" for k
        unfolding matched_iff_keys keys ..
      have same_filter:
        "filter (\<lambda>c. \<forall>h\<in>set (columns ?df1). strip (lower h) \<noteq> lower c) cols
           = filter (\<lambda>c. \<forall>h\<in>set (columns df). strip (lower h) \<noteq> lower c) cols"
        using same_match by (intro filter_cong refl) blast
      from Cons.IH [OF rest, of ?df1 missing] obtain df' where
        run: "validate_columns_loop cols ?df1 missing =
                (df', missing @ filter (\<lambda>c. \<forall>h\<in>set (columns ?df1). strip (lower h) \<noteq> lower c) cols)"
        and rws: "rows df' = rows ?df1"
        and rel: "list_all2 ?R (columns ?df1) (columns df')"
        and keep: "\<forall>c\<in>set REQUIRED_COLUMNS. c \<in> set (columns ?df1) \<longrightarrow> c \<in> set (columns df')"
        and add: "\<forall>c\<in>set cols. (\<exists>h\<in>set (columns ?df1). strip (lower h) = lower c)
                     \<longrightarrow> c \<in> set (columns df')"
        by blast
      have matched: "\<exists>h\<in>set (columns df). strip (lower h) = lower col"
        using a_in a_key by blast
      have r1: "validate_columns_loop (col # cols) df missing =
              (df', missing @ filter (\<lambda>c. \<forall>h\<in>set (columns df). strip (lower h) \<noteq> lower c) (col # cols))"
        using False Some matched run same_filter by auto
      have r2: "rows df' = rows df" using rws by simp
      have step: "list_all2 ?R (columns df) (columns ?df1)"
        using a_key col_req by (auto simp: list_all2_conv_all_nth)
      have trans: "?R h h''" if "?R h h'" and "?R h' h''" for h h' h''
        using that required_clean by auto
      have r3: "list_all2 ?R (columns df) (columns df')"
        using trans step rel by (rule list_all2_trans)
      have col_new: "col \<in> set (columns ?df1)"
        using a_in by (auto simp: image_iff)
      have keep1: "c \<in> set (columns ?df1)" if "c \<in> set REQUIRED_COLUMNS" and "c \<in> set (columns df)" for c
      proof -
        have "c \<noteq> a"
        proof
          assume "c = a"
          then have "lower c = lower col" using a_key required_clean [OF that(1)] by simp
          then have "c = col" using required_lower_inj [OF that(1) col_req] by simp
          with that(2) False show False by simp
        qed
        with that(2) show ?thesis by (auto simp: image_iff)
      qed
      have r4: "\<forall>c\<in>set REQUIRED_COLUMNS. c \<in> set (columns df) \<longrightarrow> c \<in> set (columns df')"
        using keep keep1 by blast
      have r5: "\<forall>c\<in>set (col # cols). (\<exists>h\<in>set (columns df). strip (lower h) = lower c)
                     \<longrightarrow> c \<in> set (columns df')"
        using add same_match keep col_new col_req by auto
      show ?thesis using r1 r2 r3 r4 r5 by blast
    qed
  qed
qed

lemma absent_columns_code:
  "absent_columns hs = filter (\<lambda>c. \<forall>h\<in>set hs. strip (lower h) \<noteq> lower c) REQUIRED_COLUMNS"
  by (simp add: absent_columns_def header_matches_code list_ex_iff)

lemma validate_columns_spec:
  "\<exists>df'. validate_columns df p =
           (if absent_columns (columns df) \<noteq> [] then
              (False, df',
               p\<lparr> errors := errors p @
                    [''Missing required columns: '' @ join '', '' (absent_columns (columns df))] \<rparr>)
            else (True, df', p))
      \<and> rows df' = rows df
      \<and> list_all2 (\<lambda>h h'. h' = h \<or> (h' \<in> set REQUIRED_COLUMNS \<and> header_matches h h'))
           (columns df) (columns df')
      \<and> (absent_columns (columns df) = [] \<longrightarrow> set REQUIRED_COLUMNS \<subseteq> set (columns df'))"
proof -
  from validate_columns_loop_spec [of REQUIRED_COLUMNS df "[]"] obtain df' where
    run: "validate_columns_loop REQUIRED_COLUMNS df [] = (df', absent_columns (columns df))"
    and rws: "rows df' = rows df"
    and rel: "list_all2 (\<lambda>h h'. h' = h \<or> (h' \<in> set REQUIRED_COLUMNS \<and> strip (lower h) = lower h'))
                (columns df) (columns df')"
    and add: "\<forall>c\<in>set REQUIRED_COLUMNS. (\<exists>h\<in>set (columns df). strip (lower h) = lower c)
                 \<longrightarrow> c \<in> set (columns df')"
    by (auto simp: absent_columns_code)
  have "set REQUIRED_COLUMNS \<subseteq> set (columns df')" if "absent_columns (columns df) = []"
    using that add by (auto simp: absent_columns_code filter_empty_conv)
  moreover have "validate_columns df p =
           (if absent_columns (columns df) \<noteq> [] then
              (False, df',
               p\<lparr> errors := errors p @
                    [''Missing required columns: '' @ join '', '' (absent_columns (columns df))] \<rparr>)
            else (True, df', p))"
    by (simp add: validate_columns_def run)
  ultimately show ?thesis
    using rws rel unfolding header_matches_code by blast
qed

subsection \<open>The stages of parse_file\<close>

text \<open>
  \<open>_validate_data\<close> reads the required columns without checking that they exist; a
  missing one would raise \<open>KeyError\<close>. It is only called on a frame that passed column
  validation and was then cleaned, and such a frame has all of them.
\<close>

lemma apply_column_columns [simp]: "columns (apply_column col f df) = columns df"
  by (simp add: apply_column_def)

lemma clean_data_columns: "columns (clean_data lib df) = columns df"
  by (simp add: clean_data_def Let_def)

lemma validated_frame_has_required_columns:
  assumes "validate_columns df p = (True, df1, p1)"
  shows "set REQUIRED_COLUMNS \<subseteq> set (columns (clean_data lib df1))"
proof -
  from validate_columns_spec [of df p] assms
  have "set REQUIRED_COLUMNS \<subseteq> set (columns df1)"
    by (auto split: if_splits)
  then show ?thesis by (simp add: clean_data_columns)
qed

lemma decode_errors: "decode lib content p = (t, p') \<Longrightarrow> errors p' = errors p"
  by (auto simp: decode_def split: option.splits)

lemma validate_data_flag:
  "fst (validate_data df p) \<longleftrightarrow>
     \<not> is_empty (dropna_subset [''Flowrate'', ''Pressure'', ''Temperature''] df)"
  by (auto simp: validate_data_def Let_def dropna_subset_def is_empty_def)

lemma validate_data_errors:
  "validate_data df p = (False, p') \<Longrightarrow> errors p' \<noteq> []"
  by (auto simp: validate_data_def Let_def split: if_splits)

lemma parse_file_read_error:
  assumes "decode lib content fresh = (t, p)"
  shows "read_csv lib t = EmptyDataError \<Longrightarrow>
           parse_file lib content = failed p ''The uploaded file is empty.''"
    and "read_csv lib t = ParserError e \<Longrightarrow>
           parse_file lib content = failed p (''Failed to parse CSV: '' @ e)"
    and "read_csv lib t = OtherException e \<Longrightarrow>
           parse_file lib content = failed p (''Unexpected error: '' @ e)"
  using assms by (simp_all add: parse_file_def)

lemma parse_file_frame:
  assumes "decode lib content fresh = (t, p)" and "read_csv lib t = Frame df"
  shows "validate_columns df p = (False, df1, p1) \<Longrightarrow>
           parse_file lib content = \<lparr> frame = empty_frame, success = False, state = p1 \<rparr>"
    and "validate_columns df p = (True, df1, p1) \<Longrightarrow> clean_data lib df1 = df2 \<Longrightarrow>
         validate_data df2 p1 = (False, p2) \<Longrightarrow>
           parse_file lib content = \<lparr> frame = empty_frame, success = False, state = p2 \<rparr>"
    and "validate_columns df p = (True, df1, p1) \<Longrightarrow> clean_data lib df1 = df2 \<Longrightarrow>
         validate_data df2 p1 = (True, p2) \<Longrightarrow>
           parse_file lib content =
             \<lparr> frame = rename_columns COLUMN_MAPPING df2, success = True, state = p2 \<rparr>"
  using assms by (auto simp: parse_file_def Let_def)

lemma parse_file_outcome:
  assumes dec: "decode lib content fresh = (t, p)" and rd: "read_csv lib t = Frame df"
  shows "if absent_columns (columns df) \<noteq> [] then
           parse_file lib content =
             \<lparr> frame = empty_frame, success = False,
               state = p\<lparr> errors := errors p @
                         [''Missing required columns: '' @ join '', '' (absent_columns (columns df))] \<rparr> \<rparr>
         else
           (\<exists>df1. validate_columns df p = (True, df1, p)
              \<and> (if is_empty (dropna_subset [''Flowrate'', ''Pressure'', ''Temperature''] (clean_data lib df1))
                  then \<not> success (parse_file lib content)
                       \<and> errors (state (parse_file lib content)) \<noteq> []
                       \<and> frame (parse_file lib content) = empty_frame
                  else success (parse_file lib content)
                       \<and> frame (parse_file lib content) = rename_columns COLUMN_MAPPING (clean_data lib df1)))"
proof (cases "absent_columns (columns df) \<noteq> []")
  case True
  from validate_columns_spec [of df p] True obtain df' where
    "validate_columns df p =
       (False, df', p\<lparr> errors := errors p @
          [''Missing required columns: '' @ join '', '' (absent_columns (columns df))] \<rparr>)"
    by auto
  from parse_file_frame(1) [OF dec rd this] True show ?thesis by simp
next
  case False
  from validate_columns_spec [of df p] False obtain df1 where
    vc: "validate_columns df p = (True, df1, p)"
    by auto
  obtain ok2 p2 where vd: "validate_data (clean_data lib df1) p = (ok2, p2)"
    by (cases "validate_data (clean_data lib df1) p") blast
  have flag: "ok2 \<longleftrightarrow> \<not> is_empty (dropna_subset [''Flowrate'', ''Pressure'', ''Temperature''] (clean_data lib df1))"
    using validate_data_flag [of "clean_data lib df1" p] vd by simp
  show ?thesis
  proof (cases ok2)
    case True
    with vd have "validate_data (clean_data lib df1) p = (True, p2)" by simp
    from parse_file_frame(3) [OF dec rd vc refl this] True flag False vc
    show ?thesis by auto
  next
    case ko: False
    with vd have vd': "validate_data (clean_data lib df1) p = (False, p2)" by simp
    have "errors p2 \<noteq> []" using vd' by (rule validate_data_errors)
    with parse_file_frame(2) [OF dec rd vc refl vd'] ko flag False vc
    show ?thesis by auto
  qed
qed

subsection \<open>Claims about the ingestor\<close>

text \<open>
  C1. The claim: whenever \<open>parse_file\<close> succeeds, every returned row has a number in each
  of Flowrate, Pressure and Temperature, rows without one having been dropped. The code
  counts those rows and warns that it dropped them, but \<open>_validate_data\<close> drops them only
  from its local \<open>df_clean\<close>; \<open>parse_file\<close> returns the frame it had before. On a file
  with one good row and one row whose Flowrate is \<open>abc\<close>, the call succeeds, warns
  ``Dropped 1 rows with missing numeric values.'' and returns both rows, the first with
  a missing flowrate.
\<close>

theorem parse_file_returns_undropped_rows:
  "parse_file plain_library csv_bad_flowrate =
     \<lparr> frame =
         \<lparr> columns = [''name'', ''type'', ''flowrate'', ''pressure'', ''temperature''],
           rows = [ [Str ''P1'', Str ''Pump'', NaN, Num 1, Num 2],
                    [Str ''P2'', Str ''Pump'', Num 3, Num 4, Num 5] ] \<rparr>,
       success = True,
       state =
         \<lparr> errors = [],
           warnings =
             [ ''Column '' @ [CHR 0x27] @ ''Flowrate'' @ [CHR 0x27] @ '' has 1 missing values.'',
               ''Dropped 1 rows with missing numeric values.'' ] \<rparr> \<rparr>"
proof -
  have dec: "decode plain_library csv_bad_flowrate fresh = (csv_bad_flowrate, fresh)"
    by code_simp
  have rd: "read_csv plain_library csv_bad_flowrate = Frame frame_bad_flowrate"
    by code_simp
  have vc: "validate_columns frame_bad_flowrate fresh = (True, frame_bad_flowrate, fresh)"
    by code_simp
  have cd: "clean_data plain_library frame_bad_flowrate = cleaned_bad_flowrate"
    by code_simp
  have vd: "validate_data cleaned_bad_flowrate fresh =
      (True, \<lparr> errors = [],
              warnings =
                [ ''Column '' @ [CHR 0x27] @ ''Flowrate'' @ [CHR 0x27] @ '' has 1 missing values.'',
                  ''Dropped 1 rows with missing numeric values.'' ] \<rparr>)"
    by code_simp
  have rn: "rename_columns COLUMN_MAPPING cleaned_bad_flowrate =
      \<lparr> columns = [''name'', ''type'', ''flowrate'', ''pressure'', ''temperature''],
        rows = [ [Str ''P1'', Str ''Pump'', NaN, Num 1, Num 2],
                 [Str ''P2'', Str ''Pump'', Num 3, Num 4, Num 5] ] \<rparr>"
    by code_simp
  show ?thesis
    using parse_file_frame(3) [OF dec rd vc cd vd] rn by simp
qed

text \<open>
  C3. \<open>parse_file\<close> never raises: it is a total function in which every exception of the
  source is a value. Whenever it reports failure, the error list is not empty and the
  returned frame is the empty frame. It reports failure when \<open>read_csv\<close> raises
  \<open>EmptyDataError\<close>, \<open>ParserError\<close> or any other exception, when a required column is
  absent, and when no row of the cleaned frame has all three numeric values.
\<close>

theorem parse_file_failure:
  "(\<not> success (parse_file lib content) \<longrightarrow>
       errors (state (parse_file lib content)) \<noteq> [] \<and> frame (parse_file lib content) = empty_frame)
   \<and> (read_csv lib (fst (decode lib content fresh)) = EmptyDataError \<longrightarrow>
       \<not> success (parse_file lib content))
   \<and> (\<forall>e. read_csv lib (fst (decode lib content fresh)) = ParserError e \<longrightarrow>
       \<not> success (parse_file lib content))
   \<and> (\<forall>e. read_csv lib (fst (decode lib content fresh)) = OtherException e \<longrightarrow>
       \<not> success (parse_file lib content))
   \<and> (\<forall>df. read_csv lib (fst (decode lib content fresh)) = Frame df
          \<and> absent_columns (columns df) \<noteq> [] \<longrightarrow>
       \<not> success (parse_file lib content))
   \<and> (\<forall>df df1 p1. read_csv lib (fst (decode lib content fresh)) = Frame df
          \<and> validate_columns df (snd (decode lib content fresh)) = (True, df1, p1)
          \<and> rows (dropna_subset [''Flowrate'', ''Pressure'', ''Temperature''] (clean_data lib df1)) = [] \<longrightarrow>
       \<not> success (parse_file lib content))"
proof -
  obtain t p where dec: "decode lib content fresh = (t, p)"
    by (cases "decode lib content fresh") blast
  have lib_errors: "\<not> success (parse_file lib content)
      \<and> errors (state (parse_file lib content)) \<noteq> []
      \<and> frame (parse_file lib content) = empty_frame"
    if "\<forall>df. read_csv lib t \<noteq> Frame df"
    using that parse_file_read_error [OF dec]
    by (cases "read_csv lib t") (auto simp: failed_def)
  have frame_case: "(\<not> success (parse_file lib content) \<longrightarrow>
         errors (state (parse_file lib content)) \<noteq> [] \<and> frame (parse_file lib content) = empty_frame)
      \<and> (absent_columns (columns df) \<noteq> [] \<longrightarrow> \<not> success (parse_file lib content))
      \<and> (\<forall>df1 p1. validate_columns df p = (True, df1, p1)
            \<and> rows (dropna_subset [''Flowrate'', ''Pressure'', ''Temperature''] (clean_data lib df1)) = []
            \<longrightarrow> \<not> success (parse_file lib content))"
    if rd: "read_csv lib t = Frame df" for df
    using parse_file_outcome [OF dec rd]
    by (auto simp: is_empty_def split: if_splits)
  show ?thesis
  proof (cases "\<exists>df. read_csv lib t = Frame df")
    case True
    then obtain df where rd: "read_csv lib t = Frame df" by blast
    from frame_case [OF rd] rd dec show ?thesis by auto
  next
    case False
    then have "\<forall>df. read_csv lib t \<noteq> Frame df" by blast
    from lib_errors [OF this] False dec show ?thesis by auto
  qed
qed

theorem parse_file_failure_witness:
  "\<not> success (parse_file plain_library csv_no_numbers)
   \<and> errors (state (parse_file plain_library csv_no_numbers)) \<noteq> []
   \<and> frame (parse_file plain_library csv_no_numbers) = empty_frame
   \<and> \<not> success (parse_file plain_library [])
   \<and> \<not> success (parse_file plain_library csv_long_row)
   \<and> \<not> success (parse_file (plain_library\<lparr> read_csv := \<lambda>_. OtherException ''disk'' \<rparr>) [])
   \<and> \<not> success (parse_file plain_library csv_short_header)"
proof -
  have dec: "decode plain_library csv_no_numbers fresh = (csv_no_numbers, fresh)"
    by code_simp
  have rd: "read_csv plain_library csv_no_numbers = Frame frame_no_numbers"
    by code_simp
  have vc: "validate_columns frame_no_numbers fresh = (True, frame_no_numbers, fresh)"
    by code_simp
  have none_valid:
    "rows (dropna_subset [''Flowrate'', ''Pressure'', ''Temperature'']
             (clean_data plain_library frame_no_numbers)) = []"
    by code_simp
  have a: "\<not> success (parse_file plain_library csv_no_numbers)"
    using parse_file_failure [of plain_library csv_no_numbers] dec rd vc none_valid by simp
  have b: "\<not> success (parse_file plain_library [])"
  proof -
    have "read_csv plain_library (fst (decode plain_library [] fresh)) = EmptyDataError"
      by code_simp
    then show ?thesis using parse_file_failure [of plain_library "[]"] by blast
  qed
  have c: "\<not> success (parse_file plain_library csv_long_row)"
  proof -
    have "read_csv plain_library (fst (decode plain_library csv_long_row fresh))
            = ParserError ''Error tokenizing data''"
      by code_simp
    then show ?thesis using parse_file_failure [of plain_library csv_long_row] by blast
  qed
  have d: "\<not> success (parse_file (plain_library\<lparr> read_csv := \<lambda>_. OtherException ''disk'' \<rparr>) [])"
    using parse_file_failure [of "plain_library\<lparr> read_csv := \<lambda>_. OtherException ''disk'' \<rparr>" "[]"]
    by simp
  have e: "\<not> success (parse_file plain_library csv_short_header)"
  proof -
    have "read_csv plain_library (fst (decode plain_library csv_short_header fresh))
            = Frame \<lparr> columns = [''a'', ''b''], rows = [ [Str ''1'', Str ''2''] ] \<rparr>"
      by code_simp
    moreover have "absent_columns (columns \<lparr> columns = [''a'', ''b''], rows = [ [Str ''1'', Str ''2''] ] \<rparr>) \<noteq> []"
      by code_simp
    ultimately show ?thesis using parse_file_failure [of plain_library csv_short_header] by blast
  qed
  from a parse_file_failure [of plain_library csv_no_numbers] b c d e
  show ?thesis by blast
qed

text \<open>
  C4. Let \<open>read_csv\<close> have returned a frame. If some required column is absent (no header
  equals its canonical name up to letter case once surrounding whitespace is trimmed),
  \<open>parse_file\<close> fails: it returns the empty frame and \<open>success = False\<close>, and its error list
  is the single message that lists exactly the absent required columns, by name, in the
  order of \<open>REQUIRED_COLUMNS\<close>. If no required column is absent, column validation
  succeeds without adding an error or a warning, the rows are untouched, every header is
  either unchanged or replaced by the canonical name it matches, and afterwards all five
  canonical names are among the columns.
\<close>

theorem missing_required_columns:
  assumes "decode lib content fresh = (t, p)" and "read_csv lib t = Frame df"
  shows "(absent_columns (columns df) \<noteq> [] \<longrightarrow>
            parse_file lib content =
              \<lparr> frame = empty_frame, success = False,
                state = p\<lparr> errors :=
                  [''Missing required columns: '' @ join '', '' (absent_columns (columns df))] \<rparr> \<rparr>)
       \<and> (absent_columns (columns df) = [] \<longrightarrow>
            (\<exists>df'. validate_columns df p = (True, df', p)
               \<and> rows df' = rows df
               \<and> set REQUIRED_COLUMNS \<subseteq> set (columns df')
               \<and> list_all2 (\<lambda>h h'. h' = h \<or> (h' \<in> set REQUIRED_COLUMNS \<and> header_matches h h'))
                    (columns df) (columns df')))"
proof -
  have no_errors: "errors p = []"
    using decode_errors [OF assms(1)] by (simp add: fresh_def)
  from validate_columns_spec [of df p] obtain df' where
    vc: "validate_columns df p =
           (if absent_columns (columns df) \<noteq> [] then
              (False, df',
               p\<lparr> errors := errors p @
                    [''Missing required columns: '' @ join '', '' (absent_columns (columns df))] \<rparr>)
            else (True, df', p))"
    and rest: "rows df' = rows df"
      "list_all2 (\<lambda>h h'. h' = h \<or> (h' \<in> set REQUIRED_COLUMNS \<and> header_matches h h'))
           (columns df) (columns df')"
      "absent_columns (columns df) = [] \<longrightarrow> set REQUIRED_COLUMNS \<subseteq> set (columns df')"
    by blast
  have fatal: "parse_file lib content =
              \<lparr> frame = empty_frame, success = False,
                state = p\<lparr> errors :=
                  [''Missing required columns: '' @ join '', '' (absent_columns (columns df))] \<rparr> \<rparr>"
    if "absent_columns (columns df) \<noteq> []"
    using parse_file_outcome [OF assms] that no_errors by simp
  show ?thesis using fatal vc rest by auto
qed

theorem missing_required_columns_witness:
  "parse_file plain_library csv_no_pressure =
     \<lparr> frame = empty_frame, success = False,
       state = \<lparr> errors = [''Missing required columns: Pressure''], warnings = [] \<rparr> \<rparr>
   \<and> absent_columns [''Equipment Name'', ''Type'', ''Flowrate'', ''pressure '', ''Temperature''] = []
   \<and> (\<exists>df'. validate_columns frame_pressure_variant fresh = (True, df', fresh)
          \<and> rows df' = rows frame_pressure_variant
          \<and> columns df' = [''Equipment Name'', ''Type'', ''Flowrate'', ''Pressure'', ''Temperature''])"
proof -
  have dec1: "decode plain_library csv_no_pressure fresh = (csv_no_pressure, fresh)"
    by code_simp
  have rd1: "read_csv plain_library csv_no_pressure = Frame frame_no_pressure"
    by code_simp
  have ab1: "absent_columns (columns frame_no_pressure) = [''Pressure'']"
    by code_simp
  have dec2: "decode plain_library csv_pressure_variant fresh = (csv_pressure_variant, fresh)"
    by code_simp
  have rd2: "read_csv plain_library csv_pressure_variant = Frame frame_pressure_variant"
    by code_simp
  have cols2: "columns frame_pressure_variant =
      [''Equipment Name'', ''Type'', ''Flowrate'', ''pressure '', ''Temperature'']"
    by code_simp
  have ab2: "absent_columns (columns frame_pressure_variant) = []"
    by code_simp
  have renamed: "fst (snd (validate_columns frame_pressure_variant fresh)) =
      \<lparr> columns = [''Equipment Name'', ''Type'', ''Flowrate'', ''Pressure'', ''Temperature''],
        rows = rows frame_pressure_variant \<rparr>"
    by code_simp
  from missing_required_columns [OF dec2 rd2] ab2 obtain df' where
    ok: "validate_columns frame_pressure_variant fresh = (True, df', fresh)"
    and rws: "rows df' = rows frame_pressure_variant"
    by blast
  from ok renamed have "columns df' = [''Equipment Name'', ''Type'', ''Flowrate'', ''Pressure'', ''Temperature'']"
    by simp
  with ok rws have variant: "\<exists>df'. validate_columns frame_pressure_variant fresh = (True, df', fresh)
          \<and> rows df' = rows frame_pressure_variant
          \<and> columns df' = [''Equipment Name'', ''Type'', ''Flowrate'', ''Pressure'', ''Temperature'']"
    by blast
  have fatal: "parse_file plain_library csv_no_pressure =
     \<lparr> frame = empty_frame, success = False,
       state = \<lparr> errors = [''Missing required columns: Pressure''], warnings = [] \<rparr> \<rparr>"
    using missing_required_columns [OF dec1 rd1] ab1 by (simp add: fresh_def)
  show ?thesis
    using fatal variant ab2 cols2 by simp
qed

section \<open>Properties of the retention cap\<close>

lemma datasets_fold_delete:
  "datasets (fold delete_dataset vs db) = filter (\<lambda>d. pk d \<notin> pk ` set vs) (datasets db)"
proof (induction vs arbitrary: db)
  case Nil
  show ?case by simp
next
  case (Cons v vs)
  have "datasets (delete_dataset v db) = filter (\<lambda>d. pk d \<noteq> pk v) (datasets db)"
    by (simp add: delete_dataset_def)
  with Cons.IH [of "delete_dataset v db"] show ?case
    by (simp add: conj_commute)
qed

lemma delete_by_key_is_delete_rows:
  assumes "distinct (map pk ds)" and "set vs \<subseteq> set ds"
  shows "filter (\<lambda>d. pk d \<notin> pk ` set vs) ds = filter (\<lambda>d. d \<notin> set vs) ds"
proof (rule filter_cong [OF refl])
  fix d assume d: "d \<in> set ds"
  have inj: "inj_on pk (set ds)" using assms(1) by (simp add: distinct_map)
  show "(pk d \<notin> pk ` set vs) = (d \<notin> set vs)"
    using inj d assms(2) by (auto dest: inj_onD)
qed

lemma enforce_dataset_limit_result:
  assumes "0 \<le> max_datasets"
  shows "enforce_dataset_limit max_datasets user db =
           Inr (fold delete_dataset
                  (drop (nat max_datasets)
                     (order_by_uploaded_at_desc (filter (\<lambda>d. uploaded_by d = user) (datasets db))))
                  db)"
  using assms by (simp add: enforce_dataset_limit_def Let_def)

lemma order_by_split:
  assumes "d \<in> set (drop n (order_by_uploaded_at_desc ds))"
    and "k \<in> set (take n (order_by_uploaded_at_desc ds))"
  shows "uploaded_at d \<le> uploaded_at k"
proof -
  let ?s = "order_by_uploaded_at_desc ds"
  let ?f = "\<lambda>d. - int (uploaded_at d)"
  have "sorted (map ?f ?s)"
    unfolding order_by_uploaded_at_desc_def by (rule sorted_sort_key)
  then have "sorted (map ?f (take n ?s) @ map ?f (drop n ?s))"
    by (simp flip: map_append)
  then have "\<forall>x\<in>set (map ?f (take n ?s)). \<forall>y\<in>set (map ?f (drop n ?s)). x \<le> y"
    by (simp add: sorted_append)
  with assms have "?f k \<le> ?f d" by auto
  then show ?thesis by simp
qed

text \<open>
  C9. With distinct primary keys and a cap that is not negative, the enforcement
  returns normally and leaves the user with at most \<open>max_datasets\<close> datasets, namely with
  \<open>min\<close> (what the user had) \<open>max_datasets\<close> of them. Nothing is added; every dataset that
  is removed belongs to the user and is no newer than any dataset the user keeps, so the
  removed ones are the oldest by upload timestamp and the retained ones the most recent.
  The datasets of other users are untouched.
\<close>

theorem enforce_dataset_limit_fifo:
  assumes "distinct (map pk (datasets db))" and "0 \<le> max_datasets"
  shows "\<exists>db'. enforce_dataset_limit max_datasets user db = Inr db'
     \<and> length (filter (\<lambda>d. uploaded_by d = user) (datasets db')) \<le> nat max_datasets
     \<and> length (filter (\<lambda>d. uploaded_by d = user) (datasets db'))
         = min (length (filter (\<lambda>d. uploaded_by d = user) (datasets db))) (nat max_datasets)
     \<and> set (datasets db') \<subseteq> set (datasets db)
     \<and> (\<forall>d\<in>set (datasets db). d \<notin> set (datasets db') \<longrightarrow>
           uploaded_by d = user
           \<and> (\<forall>k\<in>set (datasets db'). uploaded_by k = user \<longrightarrow> uploaded_at d \<le> uploaded_at k))
     \<and> filter (\<lambda>d. uploaded_by d \<noteq> user) (datasets db')
         = filter (\<lambda>d. uploaded_by d \<noteq> user) (datasets db)"
proof -
  let ?mine = "filter (\<lambda>d. uploaded_by d = user) (datasets db)"
  let ?s = "order_by_uploaded_at_desc ?mine"
  let ?n = "nat max_datasets"
  let ?V = "drop ?n ?s"
  let ?K = "take ?n ?s"
  let ?db' = "fold delete_dataset ?V db"
  have res: "enforce_dataset_limit max_datasets user db = Inr ?db'"
    using assms(2) by (rule enforce_dataset_limit_result)
  have dist: "distinct (datasets db)" using assms(1) by (simp add: distinct_map)
  have set_s: "set ?s = set ?mine" by (simp add: order_by_uploaded_at_desc_def)
  have dist_s: "distinct ?s" using dist by (simp add: order_by_uploaded_at_desc_def)
  have len_s: "length ?s = length ?mine" by (simp add: order_by_uploaded_at_desc_def)
  have V_sub: "set ?V \<subseteq> set ?mine" using set_s set_drop_subset by metis
  then have V_db: "set ?V \<subseteq> set (datasets db)" by auto
  have ds': "datasets ?db' = filter (\<lambda>d. d \<notin> set ?V) (datasets db)"
    using datasets_fold_delete [of ?V db] delete_by_key_is_delete_rows [OF assms(1) V_db]
    by simp
  have split: "set ?s = set ?K \<union> set ?V" "set ?K \<inter> set ?V = {}"
    using dist_s by (metis append_take_drop_id set_append, metis append_take_drop_id distinct_append)
  have kept: "filter (\<lambda>d. uploaded_by d = user) (datasets ?db') = filter (\<lambda>d. d \<notin> set ?V) ?mine"
    by (simp add: ds' conj_commute)
  have kept_set: "set (filter (\<lambda>d. d \<notin> set ?V) ?mine) = set ?K"
    using split set_s by auto
  have "distinct (filter (\<lambda>d. d \<notin> set ?V) ?mine)" using dist by simp
  then have "length (filter (\<lambda>d. d \<notin> set ?V) ?mine) = card (set ?K)"
    using kept_set by (metis distinct_card)
  also have "\<dots> = length ?K" using dist_s by (simp add: distinct_card)
  also have "\<dots> = min (length ?mine) ?n" using len_s by simp
  finally have len: "length (filter (\<lambda>d. uploaded_by d = user) (datasets ?db'))
      = min (length ?mine) ?n"
    using kept by simp
  have sub: "set (datasets ?db') \<subseteq> set (datasets db)" by (auto simp: ds')
  have removed: "uploaded_by d = user
      \<and> (\<forall>k\<in>set (datasets ?db'). uploaded_by k = user \<longrightarrow> uploaded_at d \<le> uploaded_at k)"
    if "d \<in> set (datasets db)" and "d \<notin> set (datasets ?db')" for d
  proof -
    from that have dV: "d \<in> set ?V" by (simp add: ds')
    with V_sub have "uploaded_by d = user" by auto
    moreover have "uploaded_at d \<le> uploaded_at k"
      if "k \<in> set (datasets ?db')" and "uploaded_by k = user" for k
    proof -
      from that have "k \<in> set (filter (\<lambda>d. d \<notin> set ?V) ?mine)" by (simp add: ds')
      then have "k \<in> set ?K" unfolding kept_set .
      with dV show ?thesis by (rule order_by_split)
    qed
    ultimately show ?thesis by blast
  qed
  have others: "filter (\<lambda>d. uploaded_by d \<noteq> user) (datasets ?db')
      = filter (\<lambda>d. uploaded_by d \<noteq> user) (datasets db)"
    unfolding ds' filter_filter
    using V_sub by (intro filter_cong refl) auto
  show ?thesis
  proof (intro exI [of _ ?db'] conjI)
    show "enforce_dataset_limit max_datasets user db = Inr ?db'" by (rule res)
    show "length (filter (\<lambda>d. uploaded_by d = user) (datasets ?db')) \<le> ?n"
      using len by simp
    show "length (filter (\<lambda>d. uploaded_by d = user) (datasets ?db')) = min (length ?mine) ?n"
      by (rule len)
    show "set (datasets ?db') \<subseteq> set (datasets db)" by (rule sub)
    show "\<forall>d\<in>set (datasets db). d \<notin> set (datasets ?db') \<longrightarrow>
           uploaded_by d = user
           \<and> (\<forall>k\<in>set (datasets ?db'). uploaded_by k = user \<longrightarrow> uploaded_at d \<le> uploaded_at k)"
      using removed by blast
    show "filter (\<lambda>d. uploaded_by d \<noteq> user) (datasets ?db')
         = filter (\<lambda>d. uploaded_by d \<noteq> user) (datasets db)"
      by (rule others)
  qed
qed

theorem enforce_dataset_limit_fifo_witness:
  "distinct (map pk (datasets db_four)) \<and> (0::int) \<le> 2
   \<and> (\<exists>db'. enforce_dataset_limit 2 1 db_four = Inr db'
        \<and> map pk (datasets db') = [2, 3, 4]
        \<and> length (filter (\<lambda>d. uploaded_by d = 1) (datasets db')) \<le> nat 2)"
proof -
  have d: "distinct (map pk (datasets db_four))" by (simp add: db_four_def)
  have run: "map_sum id (\<lambda>db'. map pk (datasets db')) (enforce_dataset_limit 2 1 db_four)
      = Inr [2, 3, 4]"
    by code_simp
  from enforce_dataset_limit_fifo [OF d, of 2 1] obtain db' where
    r: "enforce_dataset_limit 2 1 db_four = Inr db'"
    and l: "length (filter (\<lambda>d. uploaded_by d = 1) (datasets db')) \<le> nat 2"
    by auto
  from run r have "map pk (datasets db') = [2, 3, 4]" by simp
  with d r l show ?thesis by simp
qed

end
